theory Spec2Isabelle
  imports Complex_Main
begin

section \<open>JavaScript numbers and strings\<close>

text \<open>
  A JavaScript \<open>number\<close> is modelled as a rational: the arithmetic of the three stages
  (sums, products with the constants 1.2, 0.2 and 0.6, quotients) is taken exactly, where
  the source computes in double precision.  The two agree wherever the exact result is a
  double (all integer arithmetic on pixel sizes); they can differ by one pixel where a
  rounding function is applied to a product or quotient that lies exactly, or within one
  unit in the last place, on a rounding boundary.  Pixel dimensions read from image
  metadata are integers.  A string is a list of characters, one \<open>char\<close> standing for one
  code unit, so \<open>length\<close> is the \<open>.length\<close> of the source.
\<close>

type_synonym number = rat

definition Math_floor :: "number \<Rightarrow> number" where
  "Math_floor x = of_int \<lfloor>x\<rfloor>"

definition Math_ceil :: "number \<Rightarrow> number" where
  "Math_ceil x = of_int \<lceil>x\<rceil>"

text \<open>\<open>Math.round\<close> rounds a half towards plus infinity.\<close>

definition Math_round :: "number \<Rightarrow> number" where
  "Math_round x = of_int \<lfloor>x + 1 / 2\<rfloor>"

text \<open>\<open>Number.isInteger\<close>.\<close>

definition is_integer :: "number \<Rightarrow> bool" where
  "is_integer x = (of_int \<lfloor>x\<rfloor> = x)"

datatype device_type = Iphone | Ipad

text \<open>
  The errors that the stages throw.  The last three are raised by the image library:
  \<open>ResizeError\<close> by \<open>resize\<close> when a target dimension is not a positive integer,
  \<open>ExtractError\<close> by \<open>extract\<close> when the region has a negative coordinate or is empty or
  outside the image, \<open>CompositeError\<close> by \<open>composite\<close> when an offset is not an integer
  or an overlay is larger than the base image.
\<close>

datatype error =
    NoFramedScreenshots
  | ImageReadError
  | TypeError
  | CombinedNotFound
  | InvalidCombined
  | CombinedTooSmall
  | ResizeError
  | ExtractError
  | CompositeError

text \<open>
  The checks of the image library.  \<open>resize(width, height)\<close> takes positive integers.
  \<open>composite\<close> takes integer offsets \<open>top\<close> and \<open>left\<close> and an overlay that has a
  positive size, no larger than the base image in either dimension.
\<close>

definition resize_ok :: "number \<Rightarrow> number \<Rightarrow> bool" where
  "resize_ok width height = (is_integer width \<and> 0 < width \<and> is_integer height \<and> 0 < height)"

definition composite_ok :: "number \<times> number \<Rightarrow> number \<times> number \<Rightarrow> number \<Rightarrow> number \<Rightarrow> bool" where
  "composite_ok base overlay topOffset leftOffset =
     (is_integer topOffset \<and> is_integer leftOffset
      \<and> 0 < fst overlay \<and> 0 < snd overlay
      \<and> fst overlay \<le> fst base \<and> snd overlay \<le> snd base)"

section \<open>Stage 1: the framer\<close>

record screenshot_offset =
  offset_top :: number
  offset_left :: number

text \<open>
  \<open>FrameSettings\<close> after the merge of the defaults with the caller's overrides.  Only the
  fields that take part in the geometry of the frame canvas are kept; \<open>edgeMargin\<close> is
  optional in the source, and an override may carry \<open>undefined\<close> for it or for
  \<open>screenshotOffset\<close>.
\<close>

record FrameSettings =
  imageBorderRadius :: number
  frameBorderRadius :: number
  edgeMargin :: "number option"
  screenshotOffset :: "screenshot_offset option"

definition defaultFrameSettings :: FrameSettings where
  "defaultFrameSettings =
     \<lparr> imageBorderRadius = 110, frameBorderRadius = 140, edgeMargin = Some 30,
       screenshotOffset = Some \<lparr> offset_top = 40, offset_left = 40 \<rparr> \<rparr>"

text \<open>
  The margin of \<open>createDeviceBackground\<close> and \<open>createDeviceBezels\<close>:
  \<open>typeof settings.edgeMargin === 'number' ? settings.edgeMargin
     : (settings.screenshotOffset?.left ?? defaultFrameSettings.screenshotOffset.left)\<close>.
\<close>

definition frame_margin :: "FrameSettings \<Rightarrow> number" where
  "frame_margin settings =
     (case edgeMargin settings of
        Some m \<Rightarrow> m
      | None \<Rightarrow>
          (case screenshotOffset settings of
             Some off \<Rightarrow> offset_left off
           | None \<Rightarrow> 40))"

record frame_canvas =
  frameWidth :: number
  frameHeight :: number
  screenX :: number
  screenY :: number

text \<open>
  \<open>createDeviceBackground\<close>: the size attributes of the background SVG and the origin of
  the screen rectangle.  The SVG is the base image of the composite, so its size is the size
  of the framed image.
\<close>

definition createDeviceBackground :: "int \<Rightarrow> int \<Rightarrow> device_type \<Rightarrow> FrameSettings \<Rightarrow> frame_canvas" where
  "createDeviceBackground screenshotWidth screenshotHeight deviceType settings =
     (let margin = frame_margin settings;
          fw = of_int screenshotWidth + (margin * 2);
          fh = of_int screenshotHeight + (margin * 2)
      in \<lparr> frameWidth = fw, frameHeight = fh, screenX = margin, screenY = margin \<rparr>)"

text \<open>\<open>getScreenshotOffset\<close>: where the screenshot is pasted.\<close>

definition getScreenshotOffset :: "device_type \<Rightarrow> int \<Rightarrow> int \<Rightarrow> bool \<Rightarrow> FrameSettings \<Rightarrow> error + number" where
  "getScreenshotOffset deviceType screenshotWidth screenshotHeight isTop settings =
     (case edgeMargin settings of
        Some m \<Rightarrow> Inr m
      | None \<Rightarrow>
          (case screenshotOffset settings of
             Some off \<Rightarrow> Inr (if isTop then offset_top off else offset_left off)
           | None \<Rightarrow> Inl TypeError))"

record framed_image =
  framed_width :: number
  framed_height :: number
  screenshot_top :: number
  screenshot_left :: number

text \<open>
  \<open>frameScreenshot\<close> on a screenshot of the given size (an image has a positive width
  and height; anything else cannot be read).  The framed image has the size of the
  background layer, which is the base of the composite; the screenshot is pasted at the
  offsets of \<open>getScreenshotOffset\<close>, the bezel layer, of the size of the background, at
  the origin.  The composite fails when an offset is not an integer or when the background
  is smaller than the screenshot, which is the case for a negative margin.
\<close>

definition frameScreenshot :: "int \<Rightarrow> int \<Rightarrow> device_type \<Rightarrow> FrameSettings \<Rightarrow> error + framed_image" where
  "frameScreenshot w h deviceType frameSettings =
     (if w \<le> 0 \<or> h \<le> 0 then Inl ImageReadError
      else
        (let bg = createDeviceBackground w h deviceType frameSettings
         in case getScreenshotOffset deviceType w h True frameSettings of
              Inl e \<Rightarrow> Inl e
            | Inr t \<Rightarrow>
                (case getScreenshotOffset deviceType w h False frameSettings of
                   Inl e \<Rightarrow> Inl e
                 | Inr l \<Rightarrow>
                     if composite_ok (frameWidth bg, frameHeight bg) (of_int w, of_int h) t l
                     then Inr \<lparr> framed_width = frameWidth bg, framed_height = frameHeight bg,
                                screenshot_top = t, screenshot_left = l \<rparr>
                     else Inl CompositeError)))"

section \<open>Stage 3: the splitter\<close>

record DeviceConfig =
  config_name :: string
  config_width :: int
  config_height :: int
  config_outputPath :: string

definition DEFAULT_DEVICE_CONFIGS :: "DeviceConfig list" where
  "DEFAULT_DEVICE_CONFIGS =
     [ \<lparr> config_name = ''iphone 6.5 inch'', config_width = 1242, config_height = 2688,
         config_outputPath = ''iphone 6.5 inch (1242x2688)'' \<rparr>,
       \<lparr> config_name = ''iphone 6.9 inch'', config_width = 1320, config_height = 2868,
         config_outputPath = ''iphone 6.9 inch (1320x2868)'' \<rparr>,
       \<lparr> config_name = ''ipad 13 inch'', config_width = 2752, config_height = 2064,
         config_outputPath = ''ipad 13 inch (2752x2064)'' \<rparr> ]"

text \<open>The metadata of the combined image: either dimension may be missing.\<close>

record image_metadata =
  meta_width :: "int option"
  meta_height :: "int option"

record extract_region =
  region_left :: int
  region_top :: int
  region_width :: int
  region_height :: number

record split_plan =
  plan_outputPath :: string
  resizedWidth :: int
  resizedHeight :: number
  finalWidth :: int
  finalHeight :: number
  slots :: "(nat \<times> extract_region) list"

text \<open>
  The geometry that \<open>processDeviceConfig\<close> computes for a combined image of the given
  (validated) size: the resize target, the bottom crop, and the four regions extracted as
  \<open>slot_1\<close> to \<open>slot_4\<close>.  The widths and offsets are integer arithmetic.  The resized
  height rounds the exact product of the width and the aspect ratio; the double-precision
  product of the source can round to the neighbouring integer when the exact value ends
  in one half.
\<close>

definition processDeviceConfig :: "int \<Rightarrow> int \<Rightarrow> DeviceConfig \<Rightarrow> split_plan" where
  "processDeviceConfig width height deviceConfig =
     (let targetWidth = config_width deviceConfig;
          targetHeight = config_height deviceConfig;
          rw = targetWidth * 4;
          aspectRatio = of_int height / of_int width;
          rh = Math_round (of_int rw * aspectRatio);
          fh = (if rh > of_int targetHeight then of_int targetHeight else rh);
          quarterWidth = targetWidth
      in \<lparr> plan_outputPath = config_outputPath deviceConfig,
           resizedWidth = rw, resizedHeight = rh, finalWidth = rw, finalHeight = fh,
           slots = map (\<lambda>i. (i + 1,
                     \<lparr> region_left = int i * quarterWidth, region_top = 0,
                       region_width = quarterWidth, region_height = fh \<rparr>)) [0, 1, 2, 3] \<rparr>)"

text \<open>\<open>String.prototype.toLowerCase\<close> on the ASCII letters, and \<open>String.prototype.includes\<close>.\<close>

definition toLowerCase :: "string \<Rightarrow> string" where
  "toLowerCase s =
     map (\<lambda>c. if (65::nat) \<le> of_char c \<and> of_char c \<le> (90::nat)
               then char_of (of_char c + (32::nat)) else c) s"

fun str_includes :: "string \<Rightarrow> string \<Rightarrow> bool" where
  "str_includes [] sub = (sub = [])"
| "str_includes (c # cs) sub = (take (length sub) (c # cs) = sub \<or> str_includes cs sub)"

text \<open>
  The two checks of \<open>splitScreenshots\<close> on the metadata: \<open>!metadata.width ||
  !metadata.height\<close> (missing or zero), then the minimum of 1000 in each dimension.
\<close>

definition validateCombined :: "image_metadata \<Rightarrow> error + (int \<times> int)" where
  "validateCombined metadata =
     (case (meta_width metadata, meta_height metadata) of
        (Some w, Some h) \<Rightarrow>
          if w = 0 \<or> h = 0 then Inl InvalidCombined
          else if w < 1000 \<or> h < 1000 then Inl CombinedTooSmall
          else Inr (w, h)
      | _ \<Rightarrow> Inl InvalidCombined)"

text \<open>
  The calls of the image library in \<open>processDeviceConfig\<close>, with the geometry above:
  \<open>resize\<close> needs a positive width and height; the crop \<open>extract\<close>, made when the resized
  image is taller than the target, needs a target height that is not negative; the
  \<open>extract\<close> of a slot needs a region of positive width and height (the regions lie inside
  the resized image).  The four slots have the same size, so either the first fails and
  nothing is written for the configuration, or all four are written.
\<close>

definition plan_error :: "DeviceConfig \<Rightarrow> split_plan \<Rightarrow> error option" where
  "plan_error deviceConfig plan =
     (if \<not> resize_ok (of_int (resizedWidth plan)) (resizedHeight plan) then Some ResizeError
      else if resizedHeight plan > of_int (config_height deviceConfig) \<and> config_height deviceConfig < 0
        then Some ExtractError
      else if config_width deviceConfig \<le> 0 \<or> finalHeight plan \<le> 0 then Some ExtractError
      else None)"

text \<open>
  The loop \<open>for (const deviceConfig of filteredConfigs)\<close>: the plans carried out, in order,
  and the error that stopped the loop, if any.
\<close>

fun process_configs :: "int \<Rightarrow> int \<Rightarrow> DeviceConfig list \<Rightarrow> split_plan list \<times> error option" where
  "process_configs w h [] = ([], None)"
| "process_configs w h (deviceConfig # rest) =
     (case plan_error deviceConfig (processDeviceConfig w h deviceConfig) of
        Some e \<Rightarrow> ([], Some e)
      | None \<Rightarrow>
          (case process_configs w h rest of
             (plans, err) \<Rightarrow> (processDeviceConfig w h deviceConfig # plans, err)))"

text \<open>The device configurations of a device type.\<close>

definition filteredConfigs :: "DeviceConfig list \<Rightarrow> device_type \<Rightarrow> DeviceConfig list" where
  "filteredConfigs deviceConfigs deviceType =
     (case deviceType of
        Iphone \<Rightarrow> filter (\<lambda>c. str_includes (toLowerCase (config_name c)) ''iphone'') deviceConfigs
      | Ipad \<Rightarrow> filter (\<lambda>c. str_includes (toLowerCase (config_name c)) ''ipad'') deviceConfigs)"

text \<open>
  \<open>splitScreenshots\<close>: the combined image is \<open>None\<close> when \<open>combined.png\<close> cannot be
  accessed.  The result is the list of plans whose slots were written, and the error
  thrown, if any: nothing is written when the combined image is missing or fails a check;
  an error of the image library in a later configuration leaves the slots of the earlier
  ones on disk.
\<close>

definition splitScreenshots ::
  "DeviceConfig list \<Rightarrow> device_type \<Rightarrow> image_metadata option \<Rightarrow> split_plan list \<times> error option" where
  "splitScreenshots deviceConfigs deviceType combined =
     (case combined of
        None \<Rightarrow> ([], Some CombinedNotFound)
      | Some metadata \<Rightarrow>
          (case validateCombined metadata of
             Inl e \<Rightarrow> ([], Some e)
           | Inr (w, h) \<Rightarrow> process_configs w h (filteredConfigs deviceConfigs deviceType)))"

section \<open>Stage 2: the combiner\<close>

subsection \<open>Translations and titles\<close>

text \<open>The value that \<open>JSON.parse\<close> returns for a translation file.\<close>

datatype json =
    JNull
  | JBool bool
  | JNum number
  | JStr string
  | JArr "json list"
  | JObj "(string \<times> json) list"

text \<open>Truthiness, as tested by \<open>if (translations[slotKey])\<close> and by \<open>||\<close>.\<close>

fun truthy :: "json \<Rightarrow> bool" where
  "truthy JNull = False"
| "truthy (JBool b) = b"
| "truthy (JNum n) = (n \<noteq> 0)"
| "truthy (JStr s) = (s \<noteq> [])"
| "truthy (JArr xs) = True"
| "truthy (JObj kvs) = True"

text \<open>
  Reading the property \<open>slot_i\<close>: a \<open>TypeError\<close> on \<open>null\<close>, the last binding of the
  key in an object, \<open>undefined\<close> (here \<open>None\<close>) on an object without the key and on
  every other value.
\<close>

fun get_slot :: "json \<Rightarrow> string \<Rightarrow> error + json option" where
  "get_slot JNull k = Inl TypeError"
| "get_slot (JObj kvs) k = Inr (map_of (rev kvs) k)"
| "get_slot (JBool b) k = Inr None"
| "get_slot (JNum n) k = Inr None"
| "get_slot (JStr s) k = Inr None"
| "get_slot (JArr xs) k = Inr None"

fun string_of_nat :: "nat \<Rightarrow> string" where
  "string_of_nat n =
     (if n < 10 then [char_of (48 + n)]
      else string_of_nat (n div 10) @ [char_of (48 + n mod 10)])"

declare string_of_nat.simps [simp del]

definition slotKey :: "nat \<Rightarrow> string" where
  "slotKey i = ''slot_'' @ string_of_nat i"

definition placeholder :: "nat \<Rightarrow> string" where
  "placeholder i = ''Screenshot '' @ string_of_nat i"

text \<open>The loop \<open>for (let i = 1; i <= 4; i++)\<close> of \<open>loadTitles\<close>, pushing one title per slot.\<close>

fun push_titles :: "json \<Rightarrow> nat list \<Rightarrow> json list \<Rightarrow> error + json list" where
  "push_titles translations [] titles = Inr titles"
| "push_titles translations (i # rest) titles =
     (case get_slot translations (slotKey i) of
        Inl e \<Rightarrow> Inl e
      | Inr v \<Rightarrow>
          push_titles translations rest
            (titles @ [case v of
                         Some x \<Rightarrow> if truthy x then x else JStr (placeholder i)
                       | None \<Rightarrow> JStr (placeholder i)]))"

text \<open>The title that the loop pushes for slot \<open>i\<close> when the parsed value is an object.\<close>

definition slot_title :: "(string \<times> json) list \<Rightarrow> nat \<Rightarrow> json" where
  "slot_title kvs i =
     (case map_of (rev kvs) (slotKey i) of
        Some x \<Rightarrow> if truthy x then x else JStr (placeholder i)
      | None \<Rightarrow> JStr (placeholder i))"

datatype translations_file = FileMissing | FileUnparseable | FileParsed json

definition default_titles :: "json list" where
  "default_titles =
     [JStr ''Screenshot 1'', JStr ''Screenshot 2'', JStr ''Screenshot 3'', JStr ''Screenshot 4'']"

text \<open>
  \<open>loadTitles\<close>: the \<open>catch\<close> block answers every failure of the \<open>try\<close> block (unreadable
  file, \<open>JSON.parse\<close> throwing, property read on \<open>null\<close>) with the default titles.  The
  titles are JSON values: the source pushes whatever truthy value the key holds.
\<close>

definition loadTitles :: "translations_file \<Rightarrow> json list" where
  "loadTitles file =
     (case file of
        FileParsed translations \<Rightarrow>
          (case push_titles translations [1, 2, 3, 4] [] of
             Inl e \<Rightarrow> default_titles
           | Inr titles \<Rightarrow> titles)
      | FileMissing \<Rightarrow> default_titles
      | FileUnparseable \<Rightarrow> default_titles)"

subsection \<open>The title SVG\<close>

definition replace_all :: "char \<Rightarrow> string \<Rightarrow> string \<Rightarrow> string" where
  "replace_all c r s = concat (map (\<lambda>x. if x = c then r else [x]) s)"

definition escapeXml :: "string \<Rightarrow> string" where
  "escapeXml v = replace_all CHR ''>'' ''&gt;'' (replace_all CHR ''<'' ''&lt;'' (replace_all CHR ''&'' ''&amp;'' v))"

text \<open>
  \<open>text.split(/\r?\n|\\n/)\<close>: the separators are a line feed, optionally preceded by a
  carriage return, and the two characters backslash, \<open>n\<close>.
\<close>

fun split_breaks :: "string \<Rightarrow> string list" where
  "split_breaks [] = [[]]"
| "split_breaks (c # cs) =
     (if c = CHR 0x0D \<and> (case cs of d # ds \<Rightarrow> d = CHR 0x0A | [] \<Rightarrow> False)
        then [] # split_breaks (tl cs)
      else if c = CHR 0x0A then [] # split_breaks cs
      else if c = CHR 0x5C \<and> (case cs of d # ds \<Rightarrow> d = CHR ''n'' | [] \<Rightarrow> False)
        then [] # split_breaks (tl cs)
      else (case split_breaks cs of
              p # ps \<Rightarrow> (c # p) # ps
            | [] \<Rightarrow> [[c]]))"

text \<open>\<open>split(' ')\<close> and \<open>join(' ')\<close>.\<close>

fun split_sp :: "string \<Rightarrow> string list" where
  "split_sp [] = [[]]"
| "split_sp (c # cs) =
     (if c = CHR '' '' then [] # split_sp cs
      else (case split_sp cs of
              w # ws \<Rightarrow> (c # w) # ws
            | [] \<Rightarrow> [[c]]))"

fun join_sp :: "string list \<Rightarrow> string" where
  "join_sp [] = []"
| "join_sp [w] = w"
| "join_sp (w # v # ws) = w @ CHR '' '' # join_sp (v # ws)"

definition is_space :: "char \<Rightarrow> bool" where
  "is_space c = (of_char c \<in> {9, 10, 11, 12, 13, 32, 160 :: nat})"

definition trim :: "string \<Rightarrow> string" where
  "trim s = rev (dropWhile is_space (rev (dropWhile is_space s)))"

text \<open>
  The test \<open>length > maxCharsPerLine\<close> with
  \<open>maxCharsPerLine = Math.floor(width / (fontSize * 0.6))\<close>.  A zero divisor gives an
  infinity or NaN in the source: nothing exceeds plus infinity or NaN, everything exceeds
  minus infinity.
\<close>

definition exceedsMaxChars :: "number \<Rightarrow> number \<Rightarrow> nat \<Rightarrow> bool" where
  "exceedsMaxChars width fontSize len =
     (let d = fontSize * (3 / 5)
      in if d = 0 then width < 0 else of_nat len > Math_floor (width / d))"

text \<open>
  The greedy loop over the words; it returns \<open>breakIndex\<close>.  The arguments are the words
  still to visit, the index \<open>i\<close> of the first of them, \<open>currentLine\<close> and the
  \<open>breakIndex\<close> so far; \<open>testLine\<close> is
  \<open>currentLine + (currentLine ? ' ' : '') + words[i]\<close>.
\<close>

definition testLine :: "string \<Rightarrow> string \<Rightarrow> string" where
  "testLine currentLine w = currentLine @ (if currentLine \<noteq> [] then '' '' else []) @ w"

fun wrap_loop :: "(nat \<Rightarrow> bool) \<Rightarrow> string list \<Rightarrow> nat \<Rightarrow> string \<Rightarrow> nat \<Rightarrow> nat" where
  "wrap_loop exceeds [] i currentLine breakIndex = breakIndex"
| "wrap_loop exceeds (w # ws) i currentLine breakIndex =
     (if exceeds (length (testLine currentLine w)) \<and> currentLine \<noteq> [] then i
      else wrap_loop exceeds ws (i + 1) (testLine currentLine w) (i + 1))"

text \<open>The two lines of \<open>generateTitleSvg\<close> before the cut to \<open>maxLines\<close>.\<close>

definition title_lines :: "string \<Rightarrow> number \<Rightarrow> number \<Rightarrow> string \<times> string" where
  "title_lines text fontSize width =
     (let manualParts = filter (\<lambda>p. p \<noteq> []) (split_breaks text)
      in if length manualParts > 1
         then (escapeXml (trim (hd manualParts)), escapeXml (trim (join_sp (tl manualParts))))
         else
           (let escapedText = escapeXml text
            in if exceedsMaxChars width fontSize (length escapedText)
               then
                 (let words = split_sp escapedText;
                      breakIndex = wrap_loop (exceedsMaxChars width fontSize) words 0 [] 0
                  in if breakIndex > 0 \<and> breakIndex < length words
                     then (join_sp (take breakIndex words), join_sp (drop breakIndex words))
                     else (escapedText, []))
               else (escapedText, [])))"

record title_svg =
  line1 :: string
  line2 :: string
  svgWidth :: number
  svgHeight :: number
  textX :: number
  textY1 :: number
  textY2 :: number

text \<open>
  \<open>generateTitleSvg\<close>: the SVG is represented by the lines it renders, its size and the
  anchor of each line (the shadow copies are shifted by the shadow offset).
\<close>

definition generateTitleSvg :: "string \<Rightarrow> number \<Rightarrow> number \<Rightarrow> number \<Rightarrow> nat \<Rightarrow> title_svg" where
  "generateTitleSvg text fontSize shadowOffset width maxLines =
     (let (l1, l2) = title_lines text fontSize width;
          l2' = (if maxLines = 1 then [] else l2);
          lineHeight = fontSize * (6 / 5);
          renderedLines = (if l2' \<noteq> [] then 2 else 1);
          contentHeight = lineHeight * renderedLines;
          pad = Math_ceil (fontSize * (1 / 5)) + \<bar>shadowOffset\<bar>;
          h = Math_ceil (contentHeight + pad * 2);
          isTwoLines = (renderedLines = 2);
          y1 = Math_ceil (pad + (if isTwoLines then lineHeight / 2 else contentHeight / 2));
          y2 = y1 + lineHeight
      in \<lparr> line1 = l1, line2 = l2', svgWidth = width, svgHeight = h,
           textX = width / 2, textY1 = y1, textY2 = y2 \<rparr>)"

text \<open>Whether a text contains a line feed or the escaped sequence backslash, \<open>n\<close>.\<close>

fun has_explicit_break :: "string \<Rightarrow> bool" where
  "has_explicit_break [] = False"
| "has_explicit_break (c # cs) =
     (c = CHR 0x0A
      \<or> (c = CHR 0x5C \<and> (case cs of d # ds \<Rightarrow> d = CHR ''n'' | [] \<Rightarrow> False))
      \<or> has_explicit_break cs)"

subsection \<open>Finding the framed screenshots\<close>

text \<open>
  \<open>parseInt\<close> without a radix: leading white space, an optional sign, an optional
  \<open>0x\<close> prefix, then the longest run of digits; \<open>None\<close> stands for NaN.
\<close>

definition digit_value :: "nat \<Rightarrow> char \<Rightarrow> nat option" where
  "digit_value radix c =
     (let n = (of_char c :: nat);
          v = (if 48 \<le> n \<and> n \<le> 57 then Some (n - 48)
               else if 97 \<le> n \<and> n \<le> 122 then Some (n - 87)
               else if 65 \<le> n \<and> n \<le> 90 then Some (n - 55)
               else None)
      in case v of Some d \<Rightarrow> if d < radix then Some d else None | None \<Rightarrow> None)"

definition parseInt :: "string \<Rightarrow> int option" where
  "parseInt str =
     (let s1 = dropWhile is_space str;
          negative = (s1 \<noteq> [] \<and> hd s1 = CHR ''-'');
          s2 = (if s1 \<noteq> [] \<and> (hd s1 = CHR ''-'' \<or> hd s1 = CHR ''+'') then tl s1 else s1);
          hex = (take 2 s2 = ''0x'' \<or> take 2 s2 = ''0X'');
          radix = (if hex then 16 else 10);
          s3 = (if hex then drop 2 s2 else s2);
          z = takeWhile (\<lambda>c. digit_value radix c \<noteq> None) s3;
          n = foldl (\<lambda>acc c. acc * radix + (case digit_value radix c of Some d \<Rightarrow> d | None \<Rightarrow> 0)) 0 z
      in if z = [] then None else Some (if negative then - int n else int n))"

text \<open>
  One entry of the directory \<open>basePath/deviceType/locale\<close>: its name, the outcome of
  \<open>fs.stat\<close> on it, and the size of the \<open>framed.png\<close> inside it when that file can be
  accessed.
\<close>

datatype stat_result = StatFailed | StatFile | StatDirectory

record dir_entry =
  entry_name :: string
  entry_stat :: stat_result
  entry_framed :: "(int \<times> int) option"

definition startsWith :: "string \<Rightarrow> string \<Rightarrow> bool" where
  "startsWith s p = (take (length p) s = p)"

text \<open>
  The comparator of the sort, \<open>slotA - slotB\<close> on the numbers parsed from the directory
  names without their \<open>slot_\<close> prefix; the sort takes a NaN difference for zero.
\<close>

definition slot_compare :: "dir_entry \<Rightarrow> dir_entry \<Rightarrow> int" where
  "slot_compare a b =
     (case (parseInt (drop 5 (entry_name a)), parseInt (drop 5 (entry_name b))) of
        (Some slotA, Some slotB) \<Rightarrow> slotA - slotB
      | _ \<Rightarrow> 0)"

text \<open>
  \<open>Array.prototype.sort\<close> with a comparator, as the JavaScript engine of Node runs it on
  an array of fewer than 64 elements: the longest initial run (ascending, or strictly
  descending and then reversed) is extended by binary insertion of the remaining
  elements, each placed after the elements that do not compare greater.  With a
  consistent comparator this is the stable sort, for every length; with an inconsistent
  one (here: names whose number is NaN among names with a number) the order for 64 or more
  elements is not modelled.
\<close>

fun run_more :: "('a \<Rightarrow> 'a \<Rightarrow> int) \<Rightarrow> bool \<Rightarrow> 'a \<Rightarrow> 'a list \<Rightarrow> nat" where
  "run_more cmp descending previous [] = 0"
| "run_more cmp descending previous (x # xs) =
     (if (descending \<and> 0 \<le> cmp x previous) \<or> (\<not> descending \<and> cmp x previous < 0) then 0
      else Suc (run_more cmp descending x xs))"

definition count_and_make_run :: "('a \<Rightarrow> 'a \<Rightarrow> int) \<Rightarrow> 'a list \<Rightarrow> 'a list \<times> 'a list" where
  "count_and_make_run cmp xs =
     (case xs of
        x0 # x1 # rest \<Rightarrow>
          (let descending = (cmp x1 x0 < 0);
               runLength = 2 + run_more cmp descending x1 rest
           in (if descending then rev (take runLength xs) else take runLength xs,
               drop runLength xs))
      | _ \<Rightarrow> (xs, []))"

function binary_search :: "('a \<Rightarrow> 'a \<Rightarrow> int) \<Rightarrow> 'a \<Rightarrow> 'a list \<Rightarrow> nat \<Rightarrow> nat \<Rightarrow> nat" where
  "binary_search cmp pivot arr left right =
     (if left < right
      then (if cmp pivot (arr ! (left + (right - left) div 2)) < 0
            then binary_search cmp pivot arr left (left + (right - left) div 2)
            else binary_search cmp pivot arr (left + (right - left) div 2 + 1) right)
      else left)"
  by pat_completeness auto
termination
  by (relation "measure (\<lambda>(cmp, pivot, arr, left, right). right - left)") auto

declare binary_search.simps [simp del]

fun binary_insertion :: "('a \<Rightarrow> 'a \<Rightarrow> int) \<Rightarrow> 'a list \<Rightarrow> 'a list \<Rightarrow> 'a list" where
  "binary_insertion cmp arr [] = arr"
| "binary_insertion cmp arr (pivot # rest) =
     binary_insertion cmp
       (take (binary_search cmp pivot arr 0 (length arr)) arr
          @ pivot # drop (binary_search cmp pivot arr 0 (length arr)) arr)
       rest"

definition sort_with :: "('a \<Rightarrow> 'a \<Rightarrow> int) \<Rightarrow> 'a list \<Rightarrow> 'a list" where
  "sort_with cmp xs =
     (case count_and_make_run cmp xs of (run, rest) \<Rightarrow> binary_insertion cmp run rest)"

text \<open>
  \<open>findFramedScreenshots\<close>: the listing is \<open>None\<close> when the directory cannot be read; the
  function then returns the empty list, as it does when \<open>fs.stat\<close> fails on an entry,
  since the loop visits every entry.  A found screenshot is represented by the entry of
  its slot directory.
\<close>

definition findFramedScreenshots :: "dir_entry list option \<Rightarrow> dir_entry list" where
  "findFramedScreenshots listing =
     (case listing of
        None \<Rightarrow> []
      | Some slotDirs \<Rightarrow>
          if list_ex (\<lambda>e. entry_stat e = StatFailed) slotDirs then []
          else
            sort_with slot_compare
              (filter (\<lambda>e. entry_stat e = StatDirectory \<and> startsWith (entry_name e) ''slot_''
                            \<and> entry_framed e \<noteq> None) slotDirs))"

subsection \<open>Canvas layout\<close>

record CombineSettings =
  spacing :: number
  deviceType :: device_type
  titleFontSize :: number
  titleShadowOffset :: number
  titleSpacing :: number
  centerInQuarters :: bool
  iPhoneScaleFactor :: number
  iPadScaleFactor :: number

definition defaultSettings :: CombineSettings where
  "defaultSettings =
     \<lparr> spacing = 50, deviceType = Iphone, titleFontSize = 130, titleShadowOffset = 1,
       titleSpacing = 100, centerInQuarters = True,
       iPhoneScaleFactor = 9 / 10, iPadScaleFactor = 86 / 100 \<rparr>"

record loaded_image =
  originalWidth :: int
  originalHeight :: int
  scaledWidth :: number
  scaledHeight :: number

text \<open>
  \<open>const scaleFactor = deviceType === 'ipad' ? iPadScaleFactor : iPhoneScaleFactor\<close>.
\<close>

definition scale_factor :: "CombineSettings \<Rightarrow> number" where
  "scale_factor st = (if deviceType st = Ipad then iPadScaleFactor st else iPhoneScaleFactor st)"

text \<open>
  Loading one framed image (an image has a positive width and height): it is resized to
  the rounded scaled size unless the scale factor is 1, and \<open>resize\<close> fails when a scaled
  dimension is not positive.  The scaled size rounds the exact product; the
  double-precision product of the source can round to the neighbouring integer when the
  exact value ends in one half.
\<close>

definition load_framed :: "number \<Rightarrow> dir_entry \<Rightarrow> error + loaded_image" where
  "load_framed scaleFactor e =
     (case entry_framed e of
        None \<Rightarrow> Inl ImageReadError
      | Some (w, h) \<Rightarrow>
          if w \<le> 0 \<or> h \<le> 0 then Inl ImageReadError
          else if scaleFactor \<noteq> 1
          then
            (if resize_ok (Math_round (of_int w * scaleFactor)) (Math_round (of_int h * scaleFactor))
             then Inr \<lparr> originalWidth = w, originalHeight = h,
                        scaledWidth = Math_round (of_int w * scaleFactor),
                        scaledHeight = Math_round (of_int h * scaleFactor) \<rparr>
             else Inl ResizeError)
          else Inr \<lparr> originalWidth = w, originalHeight = h,
                     scaledWidth = of_int w, scaledHeight = of_int h \<rparr>)"

text \<open>The framed images loaded, each with the name of the slot directory it comes from.\<close>

fun load_all :: "number \<Rightarrow> dir_entry list \<Rightarrow> error + (string \<times> loaded_image) list" where
  "load_all scaleFactor [] = Inr []"
| "load_all scaleFactor (e # es) =
     (case load_framed scaleFactor e of
        Inl err \<Rightarrow> Inl err
      | Inr img \<Rightarrow>
          (case load_all scaleFactor es of
             Inl err \<Rightarrow> Inl err
           | Inr imgs \<Rightarrow> Inr ((entry_name e, img) # imgs)))"

record canvas_dimensions =
  canvasWidth :: number
  canvasHeight :: number
  imageWidth :: number
  imageHeight :: number
  quarterWidth :: number

text \<open>
  The title height of \<open>calculateCanvasDimensions\<close>:
  \<open>pad = Math.ceil(titleFontSize * 0.2) + 1\<close> and
  \<open>titleHeight = Math.ceil((titleFontSize * 1.2 * lines) + pad * 2) + titleSpacing\<close>.
\<close>

definition canvas_titleHeight :: "number \<Rightarrow> number \<Rightarrow> bool \<Rightarrow> number" where
  "canvas_titleHeight fontSize tSpacing singleLineTitles =
     (let lines = (if singleLineTitles then 1 else 2);
          pad = Math_ceil (fontSize * (1 / 5)) + 1
      in Math_ceil ((fontSize * (6 / 5) * lines) + pad * 2) + tSpacing)"

text \<open>
  \<open>calculateCanvasDimensions\<close>.  Reading \<open>framedImages[0]\<close> of an empty array is a
  \<open>TypeError\<close>; \<open>originalWidth || width\<close> falls back to the scaled size when the original
  size is zero.
\<close>

definition calculateCanvasDimensions ::
  "loaded_image list \<Rightarrow> number \<Rightarrow> int \<Rightarrow> int \<Rightarrow> number \<Rightarrow> number \<Rightarrow> bool \<Rightarrow> bool
     \<Rightarrow> error + canvas_dimensions" where
  "calculateCanvasDimensions framedImages sp bgWidth bgHeight fontSize tSpacing centerQ singleLineTitles =
     (case framedImages of
        [] \<Rightarrow> Inl TypeError
      | first # others \<Rightarrow>
          (let iw = (if originalWidth first \<noteq> 0 then of_int (originalWidth first) else scaledWidth first);
               ih = (if originalHeight first \<noteq> 0 then of_int (originalHeight first) else scaledHeight first);
               titleHeight = canvas_titleHeight fontSize tSpacing singleLineTitles;
               n = of_nat (length framedImages);
               totalWidth = (iw * n) + (sp * (n + 1));
               totalHeight = ih + titleHeight + (sp * 2);
               cw = max (of_int bgWidth) totalWidth;
               ch = max (of_int bgHeight) totalHeight;
               qw = Math_floor (cw / n)
           in Inr \<lparr> canvasWidth = cw, canvasHeight = ch, imageWidth = iw, imageHeight = ih,
                    quarterWidth = qw \<rparr>))"

subsection \<open>Compositing\<close>

text \<open>
  The title height of \<open>combineScreenshots\<close>, used to place the titles and the images:
  \<open>titleHeight = (titleFontSize * (1.2 * linesForSvg)) + titleSpacing\<close>.
\<close>

definition layout_titleHeight :: "number \<Rightarrow> number \<Rightarrow> bool \<Rightarrow> number" where
  "layout_titleHeight fontSize tSpacing singleLineTitles =
     (let linesForSvg = (if singleLineTitles then 1 else 2)
      in (fontSize * ((6 / 5) * linesForSvg)) + tSpacing)"

text \<open>
  An input of the composite: the SVG of a title, or the buffer of a framed image, given
  with the name of its slot directory.
\<close>

datatype layer = TitleLayer title_svg | ImageLayer string loaded_image

fun layer_size :: "layer \<Rightarrow> number \<times> number" where
  "layer_size (TitleLayer svg) = (svgWidth svg, svgHeight svg)"
| "layer_size (ImageLayer slot img) = (scaledWidth img, scaledHeight img)"

record overlay =
  overlay_input :: layer
  overlay_top :: number
  overlay_left :: number

record composite =
  base_width :: number
  base_height :: number
  operations :: "overlay list"

text \<open>
  \<open>finalTitles[index] || `Screenshot ${index + 1}`\<close>, then the call of
  \<open>generateTitleSvg\<close>, whose \<open>text.split\<close> is a \<open>TypeError\<close> on a value that is not a
  string.
\<close>

definition title_text :: "json list \<Rightarrow> nat \<Rightarrow> error + string" where
  "title_text finalTitles index =
     (let t = (if index < length finalTitles \<and> truthy (finalTitles ! index)
               then finalTitles ! index else JStr (placeholder (index + 1)))
      in case t of JStr s \<Rightarrow> Inr s | _ \<Rightarrow> Inl TypeError)"

text \<open>The loop that adds the title operations, for the indices still to visit.\<close>

fun title_operations ::
  "CombineSettings \<Rightarrow> canvas_dimensions \<Rightarrow> json list \<Rightarrow> nat list \<Rightarrow> error + overlay list" where
  "title_operations st dims finalTitles [] = Inr []"
| "title_operations st dims finalTitles (index # rest) =
     (case title_text finalTitles index of
        Inl e \<Rightarrow> Inl e
      | Inr titleText \<Rightarrow>
          (let singleLineTitles = (deviceType st = Ipad);
               titleHeight = layout_titleHeight (titleFontSize st) (titleSpacing st) singleLineTitles;
               svg = generateTitleSvg titleText (titleFontSize st) (titleShadowOffset st)
                       (imageWidth dims) (if singleLineTitles then 1 else 2);
               leftPosition =
                 (if centerInQuarters st
                  then Math_round (((of_nat index * quarterWidth dims) + (quarterWidth dims / 2))
                                   - (imageWidth dims / 2))
                  else of_nat index * (imageWidth dims + spacing st) + spacing st);
               op = \<lparr> overlay_input = TitleLayer svg,
                      overlay_top = spacing st
                        + max 0 (Math_round ((titleHeight - svgHeight svg) / 2)),
                      overlay_left = leftPosition \<rparr>
           in case title_operations st dims finalTitles rest of
                Inl e \<Rightarrow> Inl e
              | Inr ops \<Rightarrow> Inr (op # ops)))"

text \<open>One image operation of the second loop.\<close>

definition image_operation ::
  "CombineSettings \<Rightarrow> canvas_dimensions \<Rightarrow> nat \<Rightarrow> string \<times> loaded_image \<Rightarrow> overlay" where
  "image_operation st dims index slotImage =
     (let framedImage = snd slotImage;
          singleLineTitles = (deviceType st = Ipad);
          titleHeight = layout_titleHeight (titleFontSize st) (titleSpacing st) singleLineTitles;
          leftPosition =
            (if centerInQuarters st
             then (let quarterCenter = (of_nat index * quarterWidth dims) + (quarterWidth dims / 2)
                   in Math_round (quarterCenter - (scaledWidth framedImage / 2)))
             else (let ow = of_int (originalWidth framedImage);
                       spaceStart = of_nat index * (ow + spacing st) + spacing st
                   in Math_round (spaceStart + (ow - scaledWidth framedImage) / 2)))
      in \<lparr> overlay_input = ImageLayer (fst slotImage) framedImage,
           overlay_top = spacing st + titleHeight,
           overlay_left = leftPosition \<rparr>)"

text \<open>\<open>titles || await loadTitles(locale)\<close>: explicit titles are strings.\<close>

definition final_titles :: "string list option \<Rightarrow> translations_file \<Rightarrow> json list" where
  "final_titles titles file = (case titles of Some ts \<Rightarrow> map JStr ts | None \<Rightarrow> loadTitles file)"

text \<open>Whether \<open>composite\<close> accepts an operation on a base image of the given size.\<close>

definition overlay_ok :: "number \<times> number \<Rightarrow> overlay \<Rightarrow> bool" where
  "overlay_ok base ov = composite_ok base (layer_size (overlay_input ov)) (overlay_top ov) (overlay_left ov)"

text \<open>
  \<open>combineScreenshots\<close>.  The arguments are the settings after the defaults are filled
  in, the explicit titles if any, the translation file of the locale, the size of the
  background image (\<open>None\<close> when it cannot be read) and the listing of the directory of
  framed screenshots.  The result is the composite that is written to \<open>combined.png\<close>;
  an error means that the function throws before writing.  The background is resized to
  the canvas when the canvas is larger, which needs integer canvas dimensions; the base of
  the composite then has the size of the canvas in every case.
\<close>

definition combineScreenshots ::
  "CombineSettings \<Rightarrow> string list option \<Rightarrow> translations_file \<Rightarrow> (int \<times> int) option
     \<Rightarrow> dir_entry list option \<Rightarrow> error + composite" where
  "combineScreenshots st titles file background listing =
     (let scaleFactor = scale_factor st;
          finalTitles = final_titles titles file
      in case background of
           None \<Rightarrow> Inl ImageReadError
         | Some (bgWidth, bgHeight) \<Rightarrow>
             if bgWidth \<le> 0 \<or> bgHeight \<le> 0 then Inl ImageReadError
             else
             (let framedScreenshotPaths = findFramedScreenshots listing
              in if length framedScreenshotPaths = 0 then Inl NoFramedScreenshots
                 else
                   (case load_all scaleFactor framedScreenshotPaths of
                      Inl e \<Rightarrow> Inl e
                    | Inr framedImages \<Rightarrow>
                        (case calculateCanvasDimensions (map snd framedImages) (spacing st) bgWidth bgHeight
                                (titleFontSize st) (titleSpacing st) (centerInQuarters st)
                                (deviceType st = Ipad) of
                           Inl e \<Rightarrow> Inl e
                         | Inr dims \<Rightarrow>
                             (let resize = (canvasWidth dims > of_int bgWidth
                                            \<or> canvasHeight dims > of_int bgHeight);
                                  base = (if resize then (canvasWidth dims, canvasHeight dims)
                                          else (of_int bgWidth, of_int bgHeight))
                              in if resize \<and> \<not> resize_ok (canvasWidth dims) (canvasHeight dims)
                                 then Inl ResizeError
                                 else
                                   (case title_operations st dims finalTitles [0 ..< length framedImages] of
                                      Inl e \<Rightarrow> Inl e
                                    | Inr titleOps \<Rightarrow>
                                        (let compositeOperations = titleOps
                                               @ map (\<lambda>(index, img). image_operation st dims index img)
                                                   (zip [0 ..< length framedImages] framedImages)
                                         in if list_all (overlay_ok base) compositeOperations
                                            then Inr \<lparr> base_width = fst base, base_height = snd base,
                                                       operations = compositeOperations \<rparr>
                                            else Inl CompositeError)))))))"

definition is_image_layer :: "overlay \<Rightarrow> bool" where
  "is_image_layer ov = (case overlay_input ov of ImageLayer slot img \<Rightarrow> True | TitleLayer svg \<Rightarrow> False)"

text \<open>
  The slot directories of the framed images that take part in a composite, in the order
  of their layers, and the number of its title layers.
\<close>

fun layer_slot :: "layer \<Rightarrow> string list" where
  "layer_slot (TitleLayer svg) = []"
| "layer_slot (ImageLayer slot img) = [slot]"

definition image_slots :: "composite \<Rightarrow> string list" where
  "image_slots c = concat (map (layer_slot \<circ> overlay_input) (operations c))"

definition title_count :: "composite \<Rightarrow> nat" where
  "title_count c = length (filter (\<lambda>ov. \<not> is_image_layer ov) (operations c))"

text \<open>A title that \<open>generateTitleSvg\<close> can render: a string, or a falsy value that the
  placeholder replaces.\<close>

fun renderable :: "json \<Rightarrow> bool" where
  "renderable (JStr s) = True"
| "renderable JNull = True"
| "renderable (JBool b) = (\<not> b)"
| "renderable (JNum n) = (n = 0)"
| "renderable (JArr xs) = False"
| "renderable (JObj kvs) = False"

fun is_nonempty_string :: "json \<Rightarrow> bool" where
  "is_nonempty_string (JStr s) = (s \<noteq> [])"
| "is_nonempty_string JNull = False"
| "is_nonempty_string (JBool b) = False"
| "is_nonempty_string (JNum n) = False"
| "is_nonempty_string (JArr xs) = False"
| "is_nonempty_string (JObj kvs) = False"

fun is_string :: "json \<Rightarrow> bool" where
  "is_string (JStr s) = True"
| "is_string JNull = False"
| "is_string (JBool b) = False"
| "is_string (JNum n) = False"
| "is_string (JArr xs) = False"
| "is_string (JObj kvs) = False"

text \<open>
  Fixtures: a slot directory holding a framed image of 1230 by 2592 pixels (a 1170 by 2532
  screenshot framed with a margin of 30), and that image loaded with the default iPhone
  scale factor.
\<close>

definition slot_dir :: "string \<Rightarrow> dir_entry" where
  "slot_dir name = \<lparr> entry_name = name, entry_stat = StatDirectory, entry_framed = Some (1230, 2592) \<rparr>"

definition framed_1230 :: loaded_image where
  "framed_1230 = \<lparr> originalWidth = 1230, originalHeight = 2592, scaledWidth = 1107, scaledHeight = 2333 \<rparr>"

text \<open>
  An image loaded from a file of \<open>w\<close> by \<open>h\<close> pixels whose scaled size is positive and
  no larger than the original.
\<close>

definition same_size_image :: "int \<Rightarrow> int \<Rightarrow> loaded_image \<Rightarrow> bool" where
  "same_size_image w h img \<longleftrightarrow>
     originalWidth img = w \<and> originalHeight img = h
     \<and> 0 < scaledWidth img \<and> scaledWidth img \<le> of_int w \<and> is_integer (scaledWidth img)
     \<and> 0 < scaledHeight img \<and> scaledHeight img \<le> of_int h \<and> is_integer (scaledHeight img)"

section \<open>Batch runs\<close>

text \<open>
  The chunked loop that the three \<open>main\<close> functions share, with the chunk size as a
  parameter (32 for the framer, 12 for the combiner, 16 for the splitter).  Every item of
  a chunk is started; its \<open>try\<close>/\<open>catch\<close> turns the outcome into a success flag, given here
  by \<open>succeeds\<close>; the flags are counted once the whole chunk has settled.  A chunk size of
  zero would never advance and is excluded.
\<close>

function process_batches ::
  "nat \<Rightarrow> ('a \<Rightarrow> bool) \<Rightarrow> 'a list \<Rightarrow> nat \<Rightarrow> nat \<times> nat \<Rightarrow> nat \<times> nat" where
  "process_batches batchSize succeeds items i counts =
     (if i < length items \<and> 0 < batchSize
      then
        (let batch = take batchSize (drop i items);
             batchResults = map succeeds batch
         in process_batches batchSize succeeds items (i + batchSize)
              (fold (\<lambda>success (processed, failed).
                       if success then (processed + 1, failed) else (processed, failed + 1))
                 batchResults counts))
      else counts)"
  by pat_completeness auto
termination
  by (relation "measure (\<lambda>(batchSize, succeeds, items, i, counts). length items - i)") auto

declare process_batches.simps [simp del]

record run_result =
  processed_count :: nat
  failed_count :: nat
  exit_status :: nat

definition FRAMER_BATCH_SIZE :: nat where "FRAMER_BATCH_SIZE = 32"
definition COMBINER_BATCH_SIZE :: nat where "COMBINER_BATCH_SIZE = 12"
definition SPLITTER_BATCH_SIZE :: nat where "SPLITTER_BATCH_SIZE = 16"

text \<open>
  The no-argument branch of the framer's \<open>main\<close> on the PNG files found.  With no file it
  calls \<open>process.exit(0)\<close>; after the loop it logs the two counts and returns, so the
  process ends with status 0.
\<close>

definition framer_main :: "(string \<Rightarrow> bool) \<Rightarrow> string list \<Rightarrow> run_result" where
  "framer_main succeeds filteredFiles =
     (if length filteredFiles = 0
      then \<lparr> processed_count = 0, failed_count = 0, exit_status = 0 \<rparr>
      else
        (let (processed, failed) = process_batches FRAMER_BATCH_SIZE succeeds filteredFiles 0 (0, 0)
         in \<lparr> processed_count = processed, failed_count = failed, exit_status = 0 \<rparr>))"

text \<open>
  The no-argument branches of the combiner's and of the splitter's \<open>main\<close> on the
  locales: \<open>if (failed > 0) { ...; process.exit(1); }\<close>.
\<close>

definition combiner_main :: "(string \<Rightarrow> bool) \<Rightarrow> string list \<Rightarrow> run_result" where
  "combiner_main succeeds locales =
     (let (processed, failed) = process_batches COMBINER_BATCH_SIZE succeeds locales 0 (0, 0)
      in \<lparr> processed_count = processed, failed_count = failed,
           exit_status = (if failed > 0 then 1 else 0) \<rparr>)"

definition splitter_main :: "(string \<Rightarrow> bool) \<Rightarrow> string list \<Rightarrow> run_result" where
  "splitter_main succeeds locales =
     (let (processed, failed) = process_batches SPLITTER_BATCH_SIZE succeeds locales 0 (0, 0)
      in \<lparr> processed_count = processed, failed_count = failed,
           exit_status = (if failed > 0 then 1 else 0) \<rparr>)"

section \<open>The framer's canvas\<close>

lemma is_integer_of_int [simp]: "is_integer (of_int k)"
  by (simp add: is_integer_def)

lemma is_integer_iff: "is_integer x \<longleftrightarrow> x \<in> \<int>"
  by (auto simp: is_integer_def Ints_def intro: sym)

text \<open>
  The framer fails on a margin that is negative or not an integer: the composite rejects
  a background smaller than the screenshot and an offset that is not an integer.
\<close>

lemma framer_rejects_invalid_margin:
  assumes "0 < w" "0 < h" "m < 0 \<or> \<not> is_integer m"
  shows "frameScreenshot w h d (s\<lparr>edgeMargin := Some m\<rparr>) = Inl CompositeError"
  using assms
  by (auto simp: frameScreenshot_def getScreenshotOffset_def createDeviceBackground_def
      frame_margin_def composite_ok_def Let_def)

text \<open>With neither \<open>edgeMargin\<close> nor \<open>screenshotOffset\<close> there is no offset to read.\<close>

lemma framer_without_offsets:
  assumes "0 < w" "0 < h"
  shows "frameScreenshot w h d (s\<lparr>edgeMargin := None, screenshotOffset := None\<rparr>) = Inl TypeError"
  using assms by (simp add: frameScreenshot_def getScreenshotOffset_def Let_def)

text \<open>
  Claim C6.  The canvas that the framer computes is wider and taller than the screenshot
  by twice the margin, where the margin is \<open>edgeMargin\<close> when it is set and the left offset
  of the settings otherwise.  For valid input, that is a screenshot of positive width and
  height and a margin that is a non-negative integer, \<open>frameScreenshot\<close> succeeds and the
  framed image has exactly this size, with \<open>edgeMargin\<close> set and with \<open>edgeMargin\<close> unset
  (the offsets then being non-negative integers); a 1170 by 2532 screenshot framed with
  the default settings (\<open>edgeMargin = 30\<close>) gives a 1230 by 2592 image.
\<close>

theorem framer_canvas_size:
  "frameWidth (createDeviceBackground w h d s) = of_int w + 2 * frame_margin s
   \<and> frameHeight (createDeviceBackground w h d s) = of_int h + 2 * frame_margin s
   \<and> frame_margin (s\<lparr>edgeMargin := Some m\<rparr>) = m
   \<and> frame_margin (s\<lparr>edgeMargin := None, screenshotOffset := Some off\<rparr>) = offset_left off
   \<and> (0 < w \<and> 0 < h \<and> 0 \<le> k \<longrightarrow>
        frameScreenshot w h d (s\<lparr>edgeMargin := Some (of_int k)\<rparr>)
          = Inr \<lparr> framed_width = of_int w + 2 * of_int k, framed_height = of_int h + 2 * of_int k,
                  screenshot_top = of_int k, screenshot_left = of_int k \<rparr>)
   \<and> (0 < w \<and> 0 < h \<and> 0 \<le> t \<and> 0 \<le> l \<longrightarrow>
        frameScreenshot w h d
            (s\<lparr>edgeMargin := None,
               screenshotOffset := Some \<lparr> offset_top = of_int t, offset_left = of_int l \<rparr>\<rparr>)
          = Inr \<lparr> framed_width = of_int w + 2 * of_int l, framed_height = of_int h + 2 * of_int l,
                  screenshot_top = of_int t, screenshot_left = of_int l \<rparr>)
   \<and> frameScreenshot 1170 2532 Iphone defaultFrameSettings
       = Inr \<lparr> framed_width = 1230, framed_height = 2592,
               screenshot_top = 30, screenshot_left = 30 \<rparr>"
  by (simp add: createDeviceBackground_def frame_margin_def frameScreenshot_def
      getScreenshotOffset_def defaultFrameSettings_def composite_ok_def is_integer_def Let_def)

theorem framer_canvas_size_witness:
  "frameScreenshot 1170 2532 Iphone (defaultFrameSettings\<lparr>edgeMargin := Some 30\<rparr>)
     = Inr \<lparr> framed_width = 1230, framed_height = 2592, screenshot_top = 30, screenshot_left = 30 \<rparr>
   \<and> frameScreenshot 2048 2732 Ipad
         (defaultFrameSettings\<lparr>edgeMargin := None,
            screenshotOffset := Some \<lparr> offset_top = 40, offset_left = 25 \<rparr>\<rparr>)
     = Inr \<lparr> framed_width = 2098, framed_height = 2782, screenshot_top = 40, screenshot_left = 25 \<rparr>"
  using framer_canvas_size [of 1170 2532 Iphone defaultFrameSettings 0 "\<lparr> offset_top = 0, offset_left = 0 \<rparr>" 30 0 0]
    framer_canvas_size [of 2048 2732 Ipad defaultFrameSettings 0 "\<lparr> offset_top = 0, offset_left = 0 \<rparr>" 0 40 25]
  by simp

section \<open>The splitter's slots\<close>

text \<open>
  Claim C5.  Whatever the size of the combined image, the splitter resizes it to a width
  of exactly four times the target width, and the four slots are extracted at the left
  offsets 0, T, 2T and 3T with width T each: consecutive, without gap or overlap, and
  summing to the resized width.
\<close>

theorem splitter_four_equal_slots:
  "resizedWidth (processDeviceConfig W H cfg) = 4 * config_width cfg
   \<and> finalWidth (processDeviceConfig W H cfg) = 4 * config_width cfg
   \<and> map fst (slots (processDeviceConfig W H cfg)) = [1, 2, 3, 4]
   \<and> map (region_left \<circ> snd) (slots (processDeviceConfig W H cfg))
       = [0, config_width cfg, 2 * config_width cfg, 3 * config_width cfg]
   \<and> map (region_width \<circ> snd) (slots (processDeviceConfig W H cfg))
       = [config_width cfg, config_width cfg, config_width cfg, config_width cfg]
   \<and> sum_list (map (region_width \<circ> snd) (slots (processDeviceConfig W H cfg)))
       = resizedWidth (processDeviceConfig W H cfg)"
  by (simp add: processDeviceConfig_def Let_def)

lemma process_configs_no_check_error:
  "snd (process_configs w h cfgs) \<noteq> Some InvalidCombined
   \<and> snd (process_configs w h cfgs) \<noteq> Some CombinedTooSmall
   \<and> snd (process_configs w h cfgs) \<noteq> Some CombinedNotFound"
  by (induction cfgs) (auto simp: plan_error_def split: option.splits prod.splits)

text \<open>
  Claim C8.  \<open>splitScreenshots\<close> throws, having written no slot, when the width or the
  height of the combined image is missing, zero or below 1000.  When both are at least
  1000 the check does not reject: \<open>validateCombined\<close> returns the dimensions, the device
  configurations of the device type are processed with them, and whatever
  \<open>splitScreenshots\<close> then throws is not an error of this check.
\<close>

theorem splitter_minimum_dimensions:
  "(w < 1000 \<or> h < 1000 \<longrightarrow>
      fst (splitScreenshots cfgs d (Some \<lparr> meta_width = Some w, meta_height = Some h \<rparr>)) = []
      \<and> (snd (splitScreenshots cfgs d (Some \<lparr> meta_width = Some w, meta_height = Some h \<rparr>))
            = Some InvalidCombined
          \<or> snd (splitScreenshots cfgs d (Some \<lparr> meta_width = Some w, meta_height = Some h \<rparr>))
            = Some CombinedTooSmall))
   \<and> splitScreenshots cfgs d (Some \<lparr> meta_width = None, meta_height = mh \<rparr>) = ([], Some InvalidCombined)
   \<and> splitScreenshots cfgs d (Some \<lparr> meta_width = mw, meta_height = None \<rparr>) = ([], Some InvalidCombined)
   \<and> splitScreenshots cfgs d (Some \<lparr> meta_width = Some 0, meta_height = mh \<rparr>) = ([], Some InvalidCombined)
   \<and> splitScreenshots cfgs d (Some \<lparr> meta_width = Some w, meta_height = Some 0 \<rparr>) = ([], Some InvalidCombined)
   \<and> (1000 \<le> w \<and> 1000 \<le> h \<longrightarrow>
        validateCombined \<lparr> meta_width = Some w, meta_height = Some h \<rparr> = Inr (w, h)
        \<and> splitScreenshots cfgs d (Some \<lparr> meta_width = Some w, meta_height = Some h \<rparr>)
            = process_configs w h (filteredConfigs cfgs d)
        \<and> snd (splitScreenshots cfgs d (Some \<lparr> meta_width = Some w, meta_height = Some h \<rparr>))
            \<noteq> Some InvalidCombined
        \<and> snd (splitScreenshots cfgs d (Some \<lparr> meta_width = Some w, meta_height = Some h \<rparr>))
            \<noteq> Some CombinedTooSmall)"
proof -
  have ok: "splitScreenshots cfgs d (Some \<lparr> meta_width = Some w, meta_height = Some h \<rparr>)
      = process_configs w h (filteredConfigs cfgs d)" if "1000 \<le> w \<and> 1000 \<le> h"
    using that by (simp add: splitScreenshots_def validateCombined_def)
  have rej: "splitScreenshots cfgs d (Some \<lparr> meta_width = Some w, meta_height = Some h \<rparr>)
      = ([], Some (if w = 0 \<or> h = 0 then InvalidCombined else CombinedTooSmall))"
    if "w < 1000 \<or> h < 1000"
    using that by (auto simp: splitScreenshots_def validateCombined_def)
  have missing: "splitScreenshots cfgs d (Some \<lparr> meta_width = None, meta_height = mh \<rparr>) = ([], Some InvalidCombined)"
    "splitScreenshots cfgs d (Some \<lparr> meta_width = mw, meta_height = None \<rparr>) = ([], Some InvalidCombined)"
    "splitScreenshots cfgs d (Some \<lparr> meta_width = Some 0, meta_height = mh \<rparr>) = ([], Some InvalidCombined)"
    "splitScreenshots cfgs d (Some \<lparr> meta_width = Some w, meta_height = Some 0 \<rparr>) = ([], Some InvalidCombined)"
    by (cases mh; cases mw; simp add: splitScreenshots_def validateCombined_def)+
  have valid: "validateCombined \<lparr> meta_width = Some w, meta_height = Some h \<rparr> = Inr (w, h)"
    if "1000 \<le> w \<and> 1000 \<le> h"
    using that by (simp add: validateCombined_def)
  show ?thesis
    using ok rej missing valid process_configs_no_check_error [of w h "filteredConfigs cfgs d"]
    by auto
qed

theorem splitter_minimum_dimensions_witness:
  "splitScreenshots DEFAULT_DEVICE_CONFIGS Iphone
      (Some \<lparr> meta_width = Some 999, meta_height = Some 5000 \<rparr>) = ([], Some CombinedTooSmall)
   \<and> validateCombined \<lparr> meta_width = Some 1000, meta_height = Some 1000 \<rparr> = Inr (1000, 1000)
   \<and> map (\<lambda>p. (resizedWidth p, resizedHeight p, finalHeight p))
        (fst (splitScreenshots DEFAULT_DEVICE_CONFIGS Iphone
                (Some \<lparr> meta_width = Some 5000, meta_height = Some 9000 \<rparr>)))
       = [(4968, 8942, 2688), (5280, 9504, 2868)]
   \<and> snd (splitScreenshots DEFAULT_DEVICE_CONFIGS Iphone
             (Some \<lparr> meta_width = Some 5000, meta_height = Some 9000 \<rparr>)) = None"
proof -
  have small: "splitScreenshots DEFAULT_DEVICE_CONFIGS Iphone
      (Some \<lparr> meta_width = Some 999, meta_height = Some 5000 \<rparr>) = ([], Some CombinedTooSmall)"
    by code_simp
  have run: "map (\<lambda>p. (resizedWidth p, resizedHeight p, finalHeight p))
        (fst (process_configs 5000 9000 (filteredConfigs DEFAULT_DEVICE_CONFIGS Iphone)))
       = [(4968, 8942, 2688), (5280, 9504, 2868)]
     \<and> snd (process_configs 5000 9000 (filteredConfigs DEFAULT_DEVICE_CONFIGS Iphone)) = None"
    by code_simp
  show ?thesis
    using splitter_minimum_dimensions [of 999 5000 DEFAULT_DEVICE_CONFIGS Iphone]
      splitter_minimum_dimensions [of 1000 1000 DEFAULT_DEVICE_CONFIGS Iphone]
      splitter_minimum_dimensions [of 5000 9000 DEFAULT_DEVICE_CONFIGS Iphone]
      small run
    by simp
qed

section \<open>Exit status of the batch runs\<close>

lemma fold_count_results:
  "fold (\<lambda>success (processed, failed).
           if success then (processed + 1, failed) else (processed, failed + 1)) rs (p, f)
   = (p + length (filter (\<lambda>r. r) rs), f + length (filter Not rs))"
  by (induction rs arbitrary: p f) auto

lemma process_batches_counts:
  "0 < b \<Longrightarrow>
   process_batches b ok items i (p, f)
   = (p + length (filter ok (drop i items)), f + length (filter (\<lambda>x. \<not> ok x) (drop i items)))"
proof (induction b ok items i "(p, f)" arbitrary: p f rule: process_batches.induct)
  case (1 b ok items i)
  show ?case
  proof (cases "i < length items")
    case False
    then show ?thesis by (simp add: process_batches.simps)
  next
    case True
    let ?batch = "take b (drop i items)"
    let ?p = "p + length (filter (\<lambda>r. r) (map ok ?batch))"
    let ?f = "f + length (filter Not (map ok ?batch))"
    have step: "process_batches b ok items i (p, f) = process_batches b ok items (i + b) (?p, ?f)"
      using True 1(2) by (subst process_batches.simps) (simp add: fold_count_results Let_def)
    have ih: "process_batches b ok items (i + b) (?p, ?f)
        = (?p + length (filter ok (drop (i + b) items)),
           ?f + length (filter (\<lambda>x. \<not> ok x) (drop (i + b) items)))"
      using 1(1) [of ?batch "map ok ?batch" ?p ?f] True 1(2)
      by (simp add: fold_count_results)
    have split: "drop i items = ?batch @ drop (i + b) items"
      by (metis add.commute append_take_drop_id drop_drop)
    have "length (filter ok (drop i items))
        = length (filter ok ?batch) + length (filter ok (drop (i + b) items))"
      by (subst split) simp
    moreover have "length (filter (\<lambda>x. \<not> ok x) (drop i items))
        = length (filter (\<lambda>x. \<not> ok x) ?batch) + length (filter (\<lambda>x. \<not> ok x) (drop (i + b) items))"
      by (subst split) simp
    moreover have "length (filter (\<lambda>r. r) (map ok ?batch)) = length (filter ok ?batch)"
      by (simp add: filter_map comp_def)
    moreover have "length (filter Not (map ok ?batch)) = length (filter (\<lambda>x. \<not> ok x) ?batch)"
      by (simp add: filter_map comp_def)
    ultimately show ?thesis
      using step ih by simp
  qed
qed

lemma combiner_main_exit:
  "processed_count (combiner_main ok locales) + failed_count (combiner_main ok locales) = length locales
   \<and> failed_count (combiner_main ok locales) = length (filter (\<lambda>x. \<not> ok x) locales)
   \<and> (exit_status (combiner_main ok locales) = 0 \<longleftrightarrow> failed_count (combiner_main ok locales) = 0)"
  by (simp add: combiner_main_def COMBINER_BATCH_SIZE_def process_batches_counts sum_length_filter_compl)

lemma splitter_main_exit:
  "processed_count (splitter_main ok locales) + failed_count (splitter_main ok locales) = length locales
   \<and> failed_count (splitter_main ok locales) = length (filter (\<lambda>x. \<not> ok x) locales)
   \<and> (exit_status (splitter_main ok locales) = 0 \<longleftrightarrow> failed_count (splitter_main ok locales) = 0)"
  by (simp add: splitter_main_def SPLITTER_BATCH_SIZE_def process_batches_counts sum_length_filter_compl)

text \<open>
  Claim C4.  In each stage's batch run every item is processed whatever happens to the
  others (the two counts add up to the number of items), and the run should end with a
  nonzero status when the count of failures is nonzero.  The combiner and the splitter do
  so (lemmas \<open>combiner_main_exit\<close> and \<open>splitter_main_exit\<close>).  The framer does not: its
  exit status is 0 whatever the count of failures, as for two files of which one fails.
\<close>

theorem framer_main_exit_status:
  "processed_count (framer_main ok files) + failed_count (framer_main ok files) = length files
   \<and> failed_count (framer_main ok files) = length (filter (\<lambda>x. \<not> ok x) files)
   \<and> exit_status (framer_main ok files) = 0
   \<and> framer_main (\<lambda>f. f \<noteq> ''bad.png'') [''good.png'', ''bad.png'']
       = \<lparr> processed_count = 1, failed_count = 1, exit_status = 0 \<rparr>
   \<and> combiner_main (\<lambda>l. l \<noteq> ''fr'') [''en'', ''fr'']
       = \<lparr> processed_count = 1, failed_count = 1, exit_status = 1 \<rparr>"
  by (simp add: framer_main_def FRAMER_BATCH_SIZE_def combiner_main_def COMBINER_BATCH_SIZE_def
      process_batches_counts sum_length_filter_compl)

section \<open>Loaded titles\<close>

lemma push_titles_object:
  "push_titles (JObj kvs) idxs titles = Inr (titles @ map (slot_title kvs) idxs)"
  by (induction idxs arbitrary: titles) (simp_all add: slot_title_def)

lemma get_slot_primitive:
  "tr \<noteq> JNull \<Longrightarrow> (\<And>kvs. tr \<noteq> JObj kvs) \<Longrightarrow> get_slot tr k = Inr None"
  by (cases tr) auto

lemma push_titles_primitive:
  "tr \<noteq> JNull \<Longrightarrow> (\<And>kvs. tr \<noteq> JObj kvs) \<Longrightarrow>
   push_titles tr idxs titles = Inr (titles @ map (JStr \<circ> placeholder) idxs)"
  by (induction idxs arbitrary: titles) (simp_all add: get_slot_primitive)

lemma default_titles_placeholders: "default_titles = map (JStr \<circ> placeholder) [1, 2, 3, 4]"
  by code_simp

lemma loadTitles_object:
  "loadTitles (FileParsed (JObj kvs)) = map (slot_title kvs) [1, 2, 3, 4]"
  by (simp add: loadTitles_def push_titles_object del: push_titles.simps)

lemma loadTitles_not_object:
  "(\<And>kvs. file \<noteq> FileParsed (JObj kvs)) \<Longrightarrow> loadTitles file = default_titles"
proof (cases "file")
  case (FileParsed tr)
  assume no: "\<And>kvs. file \<noteq> FileParsed (JObj kvs)"
  show ?thesis
  proof (cases "tr = JNull")
    case True
    then show ?thesis by (simp add: loadTitles_def FileParsed)
  next
    case False
    moreover have "\<And>kvs. tr \<noteq> JObj kvs" using no FileParsed by auto
    ultimately have "push_titles tr [1, 2, 3, 4] [] = Inr ([] @ map (JStr \<circ> placeholder) [1, 2, 3, 4])"
      by (rule push_titles_primitive)
    then show ?thesis by (simp add: loadTitles_def FileParsed default_titles_placeholders)
  qed
qed (simp_all add: loadTitles_def)

lemma length_loadTitles: "length (loadTitles file) = 4"
proof (cases "\<exists>kvs. file = FileParsed (JObj kvs)")
  case True
  then show ?thesis by (auto simp: loadTitles_object)
next
  case False
  then have "loadTitles file = default_titles" by (intro loadTitles_not_object) auto
  then show ?thesis by (simp add: default_titles_def)
qed

lemma loadTitles_nth:
  "n \<in> {1, 2, 3, 4} \<Longrightarrow> loadTitles (FileParsed (JObj kvs)) ! (n - 1) = slot_title kvs n"
  by (auto simp: loadTitles_object)

text \<open>
  Claim C9.  \<open>loadTitles\<close> always returns four titles, in slot order.  When the file is
  missing or cannot be parsed they are the four placeholders.  When it parses to an
  object, slot \<open>n\<close> yields the non-empty string bound to \<open>slot_n\<close>, and the placeholder
  \<open>Screenshot n\<close> when the key is absent; a file with only \<open>slot_1\<close> and \<open>slot_3\<close>
  populated gives the placeholders for slots 2 and 4.
\<close>

theorem loadTitles_four_titles:
  "length (loadTitles file) = 4
   \<and> loadTitles FileMissing = [JStr ''Screenshot 1'', JStr ''Screenshot 2'', JStr ''Screenshot 3'', JStr ''Screenshot 4'']
   \<and> loadTitles FileUnparseable = [JStr ''Screenshot 1'', JStr ''Screenshot 2'', JStr ''Screenshot 3'', JStr ''Screenshot 4'']
   \<and> (n \<in> {1, 2, 3, 4} \<and> map_of (rev kvs) (slotKey n) = Some (JStr s) \<and> s \<noteq> [] \<longrightarrow>
        loadTitles (FileParsed (JObj kvs)) ! (n - 1) = JStr s)
   \<and> (n \<in> {1, 2, 3, 4} \<and> map_of (rev kvs) (slotKey n) = None \<longrightarrow>
        loadTitles (FileParsed (JObj kvs)) ! (n - 1) = JStr (''Screenshot '' @ string_of_nat n))
   \<and> loadTitles (FileParsed (JObj [(''slot_1'', JStr ''Connexion''), (''slot_3'', JStr ''Profil'')]))
       = [JStr ''Connexion'', JStr ''Screenshot 2'', JStr ''Profil'', JStr ''Screenshot 4'']"
proof (intro conjI impI)
  show "length (loadTitles file) = 4" by (rule length_loadTitles)
  show "loadTitles FileMissing = [JStr ''Screenshot 1'', JStr ''Screenshot 2'', JStr ''Screenshot 3'', JStr ''Screenshot 4'']"
    by (simp add: loadTitles_def default_titles_def)
  show "loadTitles FileUnparseable = [JStr ''Screenshot 1'', JStr ''Screenshot 2'', JStr ''Screenshot 3'', JStr ''Screenshot 4'']"
    by (simp add: loadTitles_def default_titles_def)
  show "loadTitles (FileParsed (JObj kvs)) ! (n - 1) = JStr s"
    if "n \<in> {1, 2, 3, 4} \<and> map_of (rev kvs) (slotKey n) = Some (JStr s) \<and> s \<noteq> []"
    using that loadTitles_nth [of n kvs] by (simp add: slot_title_def)
  show "loadTitles (FileParsed (JObj kvs)) ! (n - 1) = JStr (''Screenshot '' @ string_of_nat n)"
    if "n \<in> {1, 2, 3, 4} \<and> map_of (rev kvs) (slotKey n) = None"
    using that loadTitles_nth [of n kvs] by (simp add: slot_title_def placeholder_def)
  show "loadTitles (FileParsed (JObj [(''slot_1'', JStr ''Connexion''), (''slot_3'', JStr ''Profil'')]))
       = [JStr ''Connexion'', JStr ''Screenshot 2'', JStr ''Profil'', JStr ''Screenshot 4'']"
    by code_simp
qed

theorem loadTitles_four_titles_witness:
  "loadTitles (FileParsed (JObj [(''slot_1'', JStr ''Connexion''), (''slot_3'', JStr ''Profil'')])) ! 0
     = JStr ''Connexion''
   \<and> loadTitles (FileParsed (JObj [(''slot_1'', JStr ''Connexion''), (''slot_3'', JStr ''Profil'')])) ! 1
     = JStr ''Screenshot 2''"
proof -
  have k1: "map_of (rev [(''slot_1'', JStr ''Connexion''), (''slot_3'', JStr ''Profil'')]) (slotKey 1)
      = Some (JStr ''Connexion'')"
    by code_simp
  have k2: "map_of (rev [(''slot_1'', JStr ''Connexion''), (''slot_3'', JStr ''Profil'')]) (slotKey 2) = None"
    by code_simp
  have s2: "string_of_nat 2 = ''2''" by code_simp
  show ?thesis
    using loadTitles_four_titles [of FileMissing 1 "[(''slot_1'', JStr ''Connexion''), (''slot_3'', JStr ''Profil'')]" "''Connexion''"]
      loadTitles_four_titles [of FileMissing 2 "[(''slot_1'', JStr ''Connexion''), (''slot_3'', JStr ''Profil'')]" "''x''"]
      k1 k2 s2
    by simp
qed

lemma truthy_slot_title: "truthy (slot_title kvs i)"
  by (simp add: slot_title_def placeholder_def split: option.split)

lemma truthy_default_titles: "list_all truthy default_titles"
  by (simp add: default_titles_def)

lemma nonempty_string_default_titles: "list_all is_nonempty_string default_titles"
  by (simp add: default_titles_def)

lemma truthy_string: "truthy v \<Longrightarrow> is_string v \<Longrightarrow> is_nonempty_string v"
  by (cases v) simp_all

theorem loadTitles_counterexample:
  "loadTitles (FileParsed (JObj [(''slot_1'', JNum 42)]))
     = [JNum 42, JStr ''Screenshot 2'', JStr ''Screenshot 3'', JStr ''Screenshot 4'']
   \<and> \<not> is_string (JNum 42)
   \<and> \<not> list_all is_nonempty_string (loadTitles (FileParsed (JObj [(''slot_1'', JNum 42)])))"
  by code_simp

text \<open>
  Claim C10, amended.  A \<open>slot_n\<close> key bound to an empty string or to any other falsy
  value yields the placeholder \<open>Screenshot n\<close>, and a key bound to a truthy value yields
  that value unchanged, whether it is a string or not.  Consequently every title returned
  is truthy, and every returned title that is a string is non-empty; all four titles are
  non-empty strings when the values bound to the slot keys are strings, and when the file
  is missing, unparseable or not an object.
\<close>

theorem loadTitles_truthy_titles:
  "(n \<in> {1, 2, 3, 4} \<and> map_of (rev kvs) (slotKey n) = Some v \<and> \<not> truthy v \<longrightarrow>
      loadTitles (FileParsed (JObj kvs)) ! (n - 1) = JStr (''Screenshot '' @ string_of_nat n))
   \<and> (n \<in> {1, 2, 3, 4} \<and> map_of (rev kvs) (slotKey n) = Some v \<and> truthy v \<longrightarrow>
        loadTitles (FileParsed (JObj kvs)) ! (n - 1) = v)
   \<and> list_all truthy (loadTitles file)
   \<and> list_all (\<lambda>t. is_string t \<longrightarrow> is_nonempty_string t) (loadTitles file)
   \<and> ((\<forall>n\<in>{1, 2, 3, 4}. \<forall>x. map_of (rev kvs) (slotKey n) = Some x \<longrightarrow> is_string x) \<longrightarrow>
        list_all is_nonempty_string (loadTitles (FileParsed (JObj kvs))))
   \<and> ((\<forall>kvs. file \<noteq> FileParsed (JObj kvs)) \<longrightarrow> list_all is_nonempty_string (loadTitles file))"
proof (intro conjI impI)
  show "loadTitles (FileParsed (JObj kvs)) ! (n - 1) = JStr (''Screenshot '' @ string_of_nat n)"
    if "n \<in> {1, 2, 3, 4} \<and> map_of (rev kvs) (slotKey n) = Some v \<and> \<not> truthy v"
    using that loadTitles_nth [of n kvs] by (simp add: slot_title_def placeholder_def)
  show "loadTitles (FileParsed (JObj kvs)) ! (n - 1) = v"
    if "n \<in> {1, 2, 3, 4} \<and> map_of (rev kvs) (slotKey n) = Some v \<and> truthy v"
    using that loadTitles_nth [of n kvs] by (simp add: slot_title_def)
  show t: "list_all truthy (loadTitles file)"
  proof (cases "\<exists>kvs. file = FileParsed (JObj kvs)")
    case True
    then show ?thesis by (auto simp: loadTitles_object truthy_slot_title)
  next
    case False
    then have "loadTitles file = default_titles" by (intro loadTitles_not_object) auto
    then show ?thesis by (simp add: truthy_default_titles)
  qed
  show "list_all (\<lambda>t. is_string t \<longrightarrow> is_nonempty_string t) (loadTitles file)"
    using t by (auto simp: list_all_iff intro: truthy_string)
  show "list_all is_nonempty_string (loadTitles (FileParsed (JObj kvs)))"
    if a: "\<forall>n\<in>{1, 2, 3, 4}. \<forall>x. map_of (rev kvs) (slotKey n) = Some x \<longrightarrow> is_string x"
  proof -
    have "is_nonempty_string (slot_title kvs n)" if "n \<in> {1, 2, 3, 4}" for n
    proof (cases "map_of (rev kvs) (slotKey n)")
      case None
      then show ?thesis by (simp add: slot_title_def placeholder_def)
    next
      case (Some x)
      with a that have "is_string x" by blast
      with Some show ?thesis
        by (cases "truthy x") (simp_all add: slot_title_def placeholder_def truthy_string)
    qed
    then show ?thesis by (simp add: loadTitles_object)
  qed
  show "list_all is_nonempty_string (loadTitles file)" if "\<forall>kvs. file \<noteq> FileParsed (JObj kvs)"
  proof -
    have "loadTitles file = default_titles" using that by (intro loadTitles_not_object) auto
    then show ?thesis by (simp add: nonempty_string_default_titles)
  qed
qed

theorem loadTitles_truthy_titles_witness:
  "loadTitles (FileParsed (JObj [(''slot_1'', JStr ''''), (''slot_2'', JStr ''Accueil''), (''slot_3'', JNum 42)])) ! 0
     = JStr ''Screenshot 1''
   \<and> loadTitles (FileParsed (JObj [(''slot_1'', JStr ''''), (''slot_2'', JStr ''Accueil''), (''slot_3'', JNum 42)])) ! 1
     = JStr ''Accueil''
   \<and> loadTitles (FileParsed (JObj [(''slot_1'', JStr ''''), (''slot_2'', JStr ''Accueil''), (''slot_3'', JNum 42)])) ! 2
     = JNum 42
   \<and> list_all is_nonempty_string
        (loadTitles (FileParsed (JObj [(''slot_1'', JStr ''''), (''slot_2'', JStr ''Accueil'')])))
   \<and> list_all is_nonempty_string (loadTitles FileMissing)"
proof -
  let ?kvs = "[(''slot_1'', JStr ''''), (''slot_2'', JStr ''Accueil''), (''slot_3'', JNum 42)]"
  let ?strs = "[(''slot_1'', JStr ''''), (''slot_2'', JStr ''Accueil'')]"
  have k1: "map_of (rev ?kvs) (slotKey 1) = Some (JStr '''')"
    by code_simp
  have k2: "map_of (rev ?kvs) (slotKey 2) = Some (JStr ''Accueil'')"
    by code_simp
  have k3: "map_of (rev ?kvs) (slotKey 3) = Some (JNum 42)"
    by code_simp
  have s1: "string_of_nat 1 = ''1''" by code_simp
  have "list_all (\<lambda>n. case map_of (rev ?strs) (slotKey n) of Some x \<Rightarrow> is_string x | None \<Rightarrow> True) [1, 2, 3, 4]"
    by code_simp
  then have strings: "\<forall>n\<in>{1, 2, 3, 4}. \<forall>x. map_of (rev ?strs) (slotKey n) = Some x \<longrightarrow> is_string x"
    by simp
  show ?thesis
    using loadTitles_truthy_titles [of 1 ?kvs "JStr ''''" FileMissing]
      loadTitles_truthy_titles [of 2 ?kvs "JStr ''Accueil''" FileMissing]
      loadTitles_truthy_titles [of 3 ?kvs "JNum 42" FileMissing]
      loadTitles_truthy_titles [of 1 ?strs "JStr ''''" FileMissing]
      k1 k2 k3 s1 strings
    by simp
qed

section \<open>Word wrap of the titles\<close>

lemma no_break_split: "\<not> has_explicit_break t \<Longrightarrow> split_breaks t = [t]"
proof (induction t)
  case Nil
  then show ?case by simp
next
  case (Cons c cs)
  then have ih: "split_breaks cs = [cs]" and c: "c \<noteq> CHR 0x0A"
    and bs: "\<not> (c = CHR 0x5C \<and> (case cs of d # ds \<Rightarrow> d = CHR ''n'' | [] \<Rightarrow> False))"
    and rest: "\<not> has_explicit_break cs"
    by auto
  have cr: "\<not> (c = CHR 0x0D \<and> (case cs of d # ds \<Rightarrow> d = CHR 0x0A | [] \<Rightarrow> False))"
    using rest by (cases cs) auto
  show ?case using ih c bs cr by simp
qed

lemma no_break_manualParts:
  "\<not> has_explicit_break t \<Longrightarrow> \<not> length (filter (\<lambda>p. p \<noteq> []) (split_breaks t)) > 1"
  by (simp add: no_break_split)

lemma split_sp_nonempty: "split_sp s \<noteq> []"
  by (induction s) (auto split: list.splits)

lemma join_split_sp: "join_sp (split_sp s) = s"
proof (induction s)
  case Nil
  then show ?case by simp
next
  case (Cons c cs)
  obtain w ws where ws: "split_sp cs = w # ws"
    using split_sp_nonempty [of cs] by (cases "split_sp cs") auto
  show ?case
  proof (cases "c = CHR '' ''")
    case True
    with Cons ws show ?thesis by simp
  next
    case False
    with Cons ws show ?thesis by (cases ws) auto
  qed
qed

lemma split_sp_no_space: "w \<in> set (split_sp s) \<Longrightarrow> CHR '' '' \<notin> set w"
proof (induction s arbitrary: w)
  case Nil
  then show ?case by simp
next
  case (Cons c cs)
  obtain v vs where vs: "split_sp cs = v # vs"
    using split_sp_nonempty [of cs] by (cases "split_sp cs") auto
  show ?case
  proof (cases "c = CHR '' ''")
    case True
    with Cons show ?thesis by auto
  next
    case False
    with Cons.prems vs have "w = c # v \<or> w \<in> set vs" by auto
    with Cons.IH vs False show ?thesis by auto
  qed
qed

lemma split_sp_word: "CHR '' '' \<notin> set w \<Longrightarrow> split_sp w = [w]"
  by (induction w) auto

lemma split_sp_append:
  "CHR '' '' \<notin> set w \<Longrightarrow> split_sp (w @ CHR '' '' # s) = w # split_sp s"
  by (induction w) auto

lemma split_join_sp:
  "ws \<noteq> [] \<Longrightarrow> \<forall>w\<in>set ws. CHR '' '' \<notin> set w \<Longrightarrow> split_sp (join_sp ws) = ws"
proof (induction ws rule: join_sp.induct)
  case 1
  then show ?case by simp
next
  case (2 w)
  then show ?case by (simp add: split_sp_word)
next
  case (3 w v ws)
  then show ?case by (simp add: split_sp_append)
qed

lemma join_sp_append:
  "xs \<noteq> [] \<Longrightarrow> ys \<noteq> [] \<Longrightarrow> join_sp (xs @ ys) = join_sp xs @ CHR '' '' # join_sp ys"
proof (induction xs rule: join_sp.induct)
  case 1
  then show ?case by simp
next
  case (2 w)
  then show ?case by (cases ys) auto
next
  case (3 w v ws)
  then show ?case by simp
qed

lemma join_take_drop:
  assumes "0 < k" "k < length ws"
  shows "join_sp (take k ws) @ CHR '' '' # join_sp (drop k ws) = join_sp ws"
proof -
  have "take k ws \<noteq> []" "drop k ws \<noteq> []" using assms by auto
  then have "join_sp (take k ws @ drop k ws) = join_sp (take k ws) @ CHR '' '' # join_sp (drop k ws)"
    by (rule join_sp_append)
  then show ?thesis by simp
qed

lemma wrapped_lines:
  assumes "0 < k" "k < length (split_sp s)"
  shows "join_sp (take k (split_sp s)) @ CHR '' '' # join_sp (drop k (split_sp s)) = s"
    and "split_sp (join_sp (take k (split_sp s))) @ split_sp (join_sp (drop k (split_sp s))) = split_sp s"
proof -
  show "join_sp (take k (split_sp s)) @ CHR '' '' # join_sp (drop k (split_sp s)) = s"
    using join_take_drop [OF assms] by (simp add: join_split_sp)
  have ns: "\<forall>w\<in>set (take k (split_sp s)). CHR '' '' \<notin> set w"
    using split_sp_no_space by (metis in_set_takeD)
  have nd: "\<forall>w\<in>set (drop k (split_sp s)). CHR '' '' \<notin> set w"
    using split_sp_no_space by (metis in_set_dropD)
  have "take k (split_sp s) \<noteq> []" "drop k (split_sp s) \<noteq> []" using assms by auto
  then have "split_sp (join_sp (take k (split_sp s))) = take k (split_sp s)"
    and "split_sp (join_sp (drop k (split_sp s))) = drop k (split_sp s)"
    using ns nd by (simp_all add: split_join_sp)
  then show "split_sp (join_sp (take k (split_sp s))) @ split_sp (join_sp (drop k (split_sp s))) = split_sp s"
    by simp
qed

lemma title_lines_no_break:
  assumes "\<not> has_explicit_break text"
  shows "title_lines text fontSize width = (escapeXml text, [])
     \<or> (\<exists>l1 l2. title_lines text fontSize width = (l1, l2)
           \<and> l1 @ CHR '' '' # l2 = escapeXml text
           \<and> split_sp l1 @ split_sp l2 = split_sp (escapeXml text))"
proof -
  let ?e = "escapeXml text"
  let ?k = "wrap_loop (exceedsMaxChars width fontSize) (split_sp ?e) 0 [] 0"
  show ?thesis
  proof (cases "exceedsMaxChars width fontSize (length ?e) \<and> 0 < ?k \<and> ?k < length (split_sp ?e)")
    case False
    then have "title_lines text fontSize width = (?e, [])"
      using no_break_manualParts [OF assms] by (auto simp: title_lines_def Let_def)
    then show ?thesis by simp
  next
    case True
    then have "title_lines text fontSize width
        = (join_sp (take ?k (split_sp ?e)), join_sp (drop ?k (split_sp ?e)))"
      using no_break_manualParts [OF assms] by (auto simp: title_lines_def Let_def)
    moreover from True have "0 < ?k" "?k < length (split_sp ?e)" by auto
    ultimately show ?thesis using wrapped_lines [of ?k ?e] by simp
  qed
qed

lemma replace_all_absent: "c \<notin> set s \<Longrightarrow> replace_all c r s = s"
  by (induction s) (auto simp: replace_all_def)

lemma escapeXml_plain:
  "CHR ''&'' \<notin> set text \<Longrightarrow> CHR ''<'' \<notin> set text \<Longrightarrow> CHR ''>'' \<notin> set text \<Longrightarrow> escapeXml text = text"
  by (simp add: escapeXml_def replace_all_absent)

text \<open>
  Claim C7, amended.  For a text without explicit line break and \<open>maxLines = 2\<close>, whatever
  the width and the font size: the first line is never longer than the XML-escaped text;
  either the first line is the whole escaped text and the second line is empty, or the two
  lines joined by a single space are the escaped text and the words of the first line
  followed by the words of the second are the words of the escaped text.  The escaped text
  is the text itself when it contains none of \<open>&\<close>, \<open><\<close>, \<open>>\<close>.
\<close>

theorem title_wrap_keeps_words:
  assumes "\<not> has_explicit_break text"
  shows "length (line1 (generateTitleSvg text fontSize shadowOffset width 2)) \<le> length (escapeXml text)
    \<and> (line1 (generateTitleSvg text fontSize shadowOffset width 2) = escapeXml text
          \<and> line2 (generateTitleSvg text fontSize shadowOffset width 2) = []
        \<or> line1 (generateTitleSvg text fontSize shadowOffset width 2) @ '' ''
             @ line2 (generateTitleSvg text fontSize shadowOffset width 2) = escapeXml text
          \<and> split_sp (line1 (generateTitleSvg text fontSize shadowOffset width 2))
             @ split_sp (line2 (generateTitleSvg text fontSize shadowOffset width 2))
             = split_sp (escapeXml text))
    \<and> (set text \<inter> {CHR ''&'', CHR ''<'', CHR ''>''} = {} \<longrightarrow> escapeXml text = text)"
proof -
  obtain l1 l2 where tl: "title_lines text fontSize width = (l1, l2)"
    by (cases "title_lines text fontSize width")
  then have l: "line1 (generateTitleSvg text fontSize shadowOffset width 2) = l1"
    "line2 (generateTitleSvg text fontSize shadowOffset width 2) = l2"
    by (simp_all add: generateTitleSvg_def Let_def)
  have cases: "(l1 = escapeXml text \<and> l2 = [])
      \<or> (l1 @ CHR '' '' # l2 = escapeXml text \<and> split_sp l1 @ split_sp l2 = split_sp (escapeXml text))"
    using title_lines_no_break [OF assms, of fontSize width] tl by auto
  then have len: "length l1 \<le> length (escapeXml text)"
  proof
    assume "l1 = escapeXml text \<and> l2 = []"
    then show ?thesis by simp
  next
    assume "l1 @ CHR '' '' # l2 = escapeXml text \<and> split_sp l1 @ split_sp l2 = split_sp (escapeXml text)"
    then have "length (escapeXml text) = length (l1 @ CHR '' '' # l2)" by simp
    then show ?thesis by simp
  qed
  have plain: "set text \<inter> {CHR ''&'', CHR ''<'', CHR ''>''} = {} \<longrightarrow> escapeXml text = text"
    by (auto intro: escapeXml_plain)
  show ?thesis
    unfolding l using len cases plain by simp
qed

theorem title_wrap_keeps_words_witness:
  "\<not> has_explicit_break ''Plan Meals in Seconds''
   \<and> line1 (generateTitleSvg ''Plan Meals in Seconds'' 130 1 1230 2) = ''Plan Meals in''
   \<and> line2 (generateTitleSvg ''Plan Meals in Seconds'' 130 1 1230 2) = ''Seconds''
   \<and> length (line1 (generateTitleSvg ''Plan Meals in Seconds'' 130 1 1230 2))
       \<le> length (escapeXml ''Plan Meals in Seconds'')
   \<and> escapeXml ''Plan Meals in Seconds'' = ''Plan Meals in Seconds''"
proof -
  have nb: "\<not> has_explicit_break ''Plan Meals in Seconds''"
    by code_simp
  have run: "line1 (generateTitleSvg ''Plan Meals in Seconds'' 130 1 1230 2) = ''Plan Meals in''
      \<and> line2 (generateTitleSvg ''Plan Meals in Seconds'' 130 1 1230 2) = ''Seconds''"
    by code_simp
  have plain: "set ''Plan Meals in Seconds'' \<inter> {CHR ''&'', CHR ''<'', CHR ''>''} = {}"
    by simp
  show ?thesis
    using title_wrap_keeps_words [OF nb, of 130 1 1230] nb run plain by simp
qed

theorem title_wrap_counterexample:
  "\<not> has_explicit_break ''Rock&Roll&Blues&Jazz''
   \<and> exceedsMaxChars 1230 130 (length ''Rock&Roll&Blues&Jazz'')
   \<and> line1 (generateTitleSvg ''Rock&Roll&Blues&Jazz'' 130 1 1230 2) = ''Rock&amp;Roll&amp;Blues&amp;Jazz''
   \<and> \<not> length (line1 (generateTitleSvg ''Rock&Roll&Blues&Jazz'' 130 1 1230 2))
         \<le> length ''Rock&Roll&Blues&Jazz''
   \<and> \<not> has_explicit_break ''Save & Create Recipes''
   \<and> exceedsMaxChars 1230 130 (length ''Save & Create Recipes'')
   \<and> split_sp (line1 (generateTitleSvg ''Save & Create Recipes'' 130 1 1230 2))
       @ split_sp (line2 (generateTitleSvg ''Save & Create Recipes'' 130 1 1230 2))
       = [''Save'', ''&amp;'', ''Create'', ''Recipes'']
   \<and> split_sp ''Save & Create Recipes'' = [''Save'', ''&'', ''Create'', ''Recipes'']"
  by code_simp

section \<open>Title band and quarter width\<close>

lemma layout_titleHeight_less_canvas:
  assumes "0 \<le> fontSize"
  shows "layout_titleHeight fontSize tSpacing single + 2 \<le> canvas_titleHeight fontSize tSpacing single"
proof -
  define lines :: rat where "lines = (if single then 1 else 2)"
  have pad: "1 \<le> Math_ceil (fontSize * (1 / 5)) + 1"
    using assms by (simp add: Math_ceil_def)
  have "fontSize * (6 / 5) * lines + 2 \<le> fontSize * (6 / 5) * lines + (Math_ceil (fontSize * (1 / 5)) + 1) * 2"
    using pad by simp
  also have "\<dots> \<le> Math_ceil (fontSize * (6 / 5) * lines + (Math_ceil (fontSize * (1 / 5)) + 1) * 2)"
    by (simp add: Math_ceil_def)
  finally show ?thesis
    by (simp add: layout_titleHeight_def canvas_titleHeight_def Let_def lines_def mult.assoc)
qed

text \<open>
  Claim C2.  The title band should have one height, used for the canvas height and for the
  vertical position of the titles and images.  With the default settings (font size 130,
  title spacing 100, shadow offset 1, iPhone) \<open>calculateCanvasDimensions\<close> reserves
  \<open>ceil(130 * 1.2 * 2 + 2 * 27) + 100 = 466\<close> pixels, so that four framed images of
  1230 by 2592 give a canvas height of \<open>2592 + 466 + 2 * 50\<close>, while
  \<open>combineScreenshots\<close> places the images at \<open>spacing + 412\<close>, its own title height being
  \<open>130 * 2.4 + 100 = 412\<close>.
\<close>

theorem title_band_height_mismatch:
  "canvas_titleHeight 130 100 False = 466
   \<and> layout_titleHeight 130 100 False = 412
   \<and> map_sum id base_height
        (combineScreenshots defaultSettings None FileMissing (Some (2580, 1398))
           (Some [slot_dir ''slot_1'', slot_dir ''slot_2'', slot_dir ''slot_3'', slot_dir ''slot_4'']))
      = Inr (2592 + 466 + 2 * 50)
   \<and> map_sum id (\<lambda>c. map overlay_top (filter is_image_layer (operations c)))
        (combineScreenshots defaultSettings None FileMissing (Some (2580, 1398))
           (Some [slot_dir ''slot_1'', slot_dir ''slot_2'', slot_dir ''slot_3'', slot_dir ''slot_4'']))
      = Inr [50 + 412, 50 + 412, 50 + 412, 50 + 412]"
  by code_simp

theorem quarter_width_counterexample:
  "calculateCanvasDimensions [framed_1230, framed_1230, framed_1230, framed_1230]
       50 2580 1398 130 100 True False
     = Inr \<lparr> canvasWidth = 5170, canvasHeight = 3158, imageWidth = 1230, imageHeight = 2592,
             quarterWidth = 1292 \<rparr>
   \<and> (1292 :: rat) \<noteq> 5170 / 4"
  by code_simp

lemma floor_quarter_exact:
  fixes x :: rat
  shows "(of_int \<lfloor>x / 4\<rfloor> = x / 4) \<longleftrightarrow> (\<exists>k::int. x = 4 * of_int k)"
proof
  assume "of_int \<lfloor>x / 4\<rfloor> = x / 4"
  then have "x = 4 * of_int \<lfloor>x / 4\<rfloor>" by simp
  then show "\<exists>k::int. x = 4 * of_int k" ..
next
  assume "\<exists>k::int. x = 4 * of_int k"
  then obtain k :: int where "x = 4 * of_int k" ..
  then show "of_int \<lfloor>x / 4\<rfloor> = x / 4" by simp
qed

text \<open>
  Claim C3, amended.  The quarter width is the floor of the canvas width divided by the
  number of framed images.  With four images it is at most a quarter of the canvas width
  and less than one pixel below it, and it equals the quarter exactly if and only if the
  canvas width is a multiple of 4.
\<close>

theorem quarter_width_is_floor:
  assumes "calculateCanvasDimensions framedImages sp bgWidth bgHeight fontSize tSpacing centerQ single = Inr dims"
  shows "framedImages \<noteq> []
    \<and> quarterWidth dims = of_int \<lfloor>canvasWidth dims / of_nat (length framedImages)\<rfloor>
    \<and> (length framedImages = 4 \<longrightarrow>
          quarterWidth dims \<le> canvasWidth dims / 4
          \<and> canvasWidth dims / 4 < quarterWidth dims + 1
          \<and> (quarterWidth dims = canvasWidth dims / 4
               \<longleftrightarrow> (\<exists>k::int. canvasWidth dims = 4 * of_int k)))"
proof -
  from assms obtain first others where ne: "framedImages = first # others"
    by (cases framedImages) (auto simp: calculateCanvasDimensions_def)
  from assms have q: "quarterWidth dims = of_int \<lfloor>canvasWidth dims / of_nat (length framedImages)\<rfloor>"
    unfolding ne by (auto simp: calculateCanvasDimensions_def Let_def Math_floor_def)
  have le: "of_int \<lfloor>canvasWidth dims / 4\<rfloor> \<le> canvasWidth dims / 4"
    by (rule of_int_floor_le)
  have lt: "canvasWidth dims / 4 < of_int \<lfloor>canvasWidth dims / 4\<rfloor> + 1"
    by linarith
  have q4: "length framedImages = 4 \<Longrightarrow> quarterWidth dims = of_int \<lfloor>canvasWidth dims / 4\<rfloor>"
    using q by simp
  have "length framedImages = 4 \<Longrightarrow> quarterWidth dims \<le> canvasWidth dims / 4"
    using q4 le by (simp only:)
  moreover have "length framedImages = 4 \<Longrightarrow> canvasWidth dims / 4 < quarterWidth dims + 1"
    using q4 lt by (simp only:)
  moreover have "length framedImages = 4 \<Longrightarrow>
      (quarterWidth dims = canvasWidth dims / 4 \<longleftrightarrow> (\<exists>k::int. canvasWidth dims = 4 * of_int k))"
    using q4 floor_quarter_exact [of "canvasWidth dims"] by (simp only:)
  ultimately show ?thesis using ne q by blast
qed

theorem quarter_width_is_floor_witness:
  "quarterWidth \<lparr> canvasWidth = 5170, canvasHeight = 3158, imageWidth = 1230, imageHeight = 2592,
             quarterWidth = 1292 \<rparr> = of_int \<lfloor>(5170 :: rat) / 4\<rfloor>
   \<and> (1292 :: rat) \<le> 5170 / 4 \<and> (5170 :: rat) / 4 < 1292 + 1
   \<and> (1292 :: rat) \<noteq> 5170 / 4"
proof -
  have run: "calculateCanvasDimensions [framed_1230, framed_1230, framed_1230, framed_1230]
       50 2580 1398 130 100 True False
     = Inr \<lparr> canvasWidth = 5170, canvasHeight = 3158, imageWidth = 1230, imageHeight = 2592,
             quarterWidth = 1292 \<rparr>"
    by code_simp
  show ?thesis
    using quarter_width_is_floor [OF run] by simp
qed

section \<open>Images in a composite\<close>

lemma found_have_framed: "e \<in> set (findFramedScreenshots listing) \<Longrightarrow> entry_framed e \<noteq> None"
proof -
  have run: "set (fst (count_and_make_run cmp xs)) \<union> set (snd (count_and_make_run cmp xs)) = set xs"
    for cmp :: "dir_entry \<Rightarrow> dir_entry \<Rightarrow> int" and xs
  proof (cases xs)
    case Nil
    then show ?thesis by (simp add: count_and_make_run_def)
  next
    case (Cons x0 ys)
    show ?thesis
    proof (cases ys)
      case Nil
      with Cons show ?thesis by (simp add: count_and_make_run_def)
    next
      case (Cons x1 rest)
      have "set (take k xs) \<union> set (drop k xs) = set xs" for k
        by (metis append_take_drop_id set_append)
      with Cons \<open>xs = x0 # ys\<close> show ?thesis
        by (auto simp: count_and_make_run_def Let_def simp del: take_Suc_Cons drop_Suc_Cons)
    qed
  qed
  have ins: "set (binary_insertion cmp acc ps) = set acc \<union> set ps"
    for cmp :: "dir_entry \<Rightarrow> dir_entry \<Rightarrow> int" and acc ps
  proof (induction ps arbitrary: acc)
    case Nil
    then show ?case by simp
  next
    case (Cons p ps)
    have "set (take k acc @ p # drop k acc) = insert p (set acc)" for k
      by (metis Un_insert_right append_take_drop_id set_append list.simps(15))
    with Cons show ?case by simp
  qed
  have "set (sort_with cmp xs) = set xs" for cmp :: "dir_entry \<Rightarrow> dir_entry \<Rightarrow> int" and xs
  proof (cases "count_and_make_run cmp xs")
    case (Pair run_part rest)
    with run [of cmp xs] ins [of cmp run_part rest] show ?thesis
      by (simp add: sort_with_def)
  qed
  then show "e \<in> set (findFramedScreenshots listing) \<Longrightarrow> entry_framed e \<noteq> None"
    by (cases listing) (auto simp: findFramedScreenshots_def split: if_splits)
qed

lemma Math_round_bounds:
  assumes "0 < w" "1 / 2 \<le> sf" "sf \<le> 1"
  shows "0 < Math_round (of_int w * sf)" "Math_round (of_int w * sf) \<le> of_int w"
    "is_integer (Math_round (of_int w * sf))"
proof -
  have w1: "(1::rat) \<le> of_int w" using assms(1) by simp
  have "1 / 2 \<le> 1 * sf" using assms(2) by simp
  also have "\<dots> \<le> of_int w * sf" using w1 assms(2) by (intro mult_right_mono) auto
  finally have lo: "1 \<le> of_int w * sf + 1 / 2" by simp
  then have "1 \<le> \<lfloor>of_int w * sf + 1 / 2\<rfloor>" by (simp add: le_floor_iff)
  then show "0 < Math_round (of_int w * sf)" by (simp add: Math_round_def)
  have "of_int w * sf \<le> of_int w * 1" using w1 assms(3) by (intro mult_left_mono) auto
  then have "of_int w * sf + 1 / 2 < of_int (w + 1)" by simp
  then have "\<lfloor>of_int w * sf + 1 / 2\<rfloor> < w + 1" by (simp only: floor_less_iff)
  then show "Math_round (of_int w * sf) \<le> of_int w" by (simp add: Math_round_def)
  show "is_integer (Math_round (of_int w * sf))" by (simp add: Math_round_def)
qed

text \<open>The image loaded from a slot directory of a \<open>w\<close> by \<open>h\<close> image.\<close>

lemma load_framed_same:
  assumes "entry_framed e = Some (w, h)" "0 < w" "0 < h" "1 / 2 \<le> sf" "sf \<le> 1"
  shows "\<exists>img. load_framed sf e = Inr img \<and> same_size_image w h img"
proof (cases "sf = 1")
  case True
  with assms show ?thesis by (simp add: load_framed_def same_size_image_def)
next
  case False
  have "resize_ok (Math_round (of_int w * sf)) (Math_round (of_int h * sf))"
    using Math_round_bounds [OF assms(2) assms(4) assms(5)] Math_round_bounds [OF assms(3) assms(4) assms(5)]
    by (simp add: resize_ok_def)
  with False assms(1,2,3) show ?thesis
    using Math_round_bounds [OF assms(2) assms(4) assms(5)] Math_round_bounds [OF assms(3) assms(4) assms(5)]
    by (simp add: load_framed_def same_size_image_def)
qed

lemma load_all_same:
  assumes "\<forall>e\<in>set es. entry_framed e = Some (w, h)" "0 < w" "0 < h" "1 / 2 \<le> sf" "sf \<le> 1"
  shows "\<exists>imgs. load_all sf es = Inr imgs \<and> map fst imgs = map entry_name es
    \<and> (\<forall>img\<in>set (map snd imgs). same_size_image w h img)"
  using assms(1)
proof (induction es)
  case Nil
  then show ?case by simp
next
  case (Cons e es)
  then obtain imgs where imgs: "load_all sf es = Inr imgs" "map fst imgs = map entry_name es"
    "\<forall>img\<in>set (map snd imgs). same_size_image w h img" by auto
  from Cons.prems have "entry_framed e = Some (w, h)" by simp
  from load_framed_same [OF this assms(2-5)] obtain img where
    "load_framed sf e = Inr img" "same_size_image w h img"
    by blast
  with imgs show ?case by simp
qed

lemma title_text_renderable:
  "list_all renderable ts \<Longrightarrow> \<exists>s. title_text ts i = Inr s"
proof (cases "i < length ts \<and> truthy (ts ! i)")
  case False
  then show ?thesis by (auto simp: title_text_def)
next
  case True
  assume "list_all renderable ts"
  with True have "renderable (ts ! i)" by (simp add: list_all_length)
  with True show ?thesis by (cases "ts ! i") (auto simp: title_text_def)
qed

lemma svgHeight_cases:
  "\<exists>r::rat. (r = 1 \<or> r = 2 \<and> ml \<noteq> 1)
     \<and> svgHeight (generateTitleSvg title fs so width ml)
         = Math_ceil (fs * (6 / 5) * r + (Math_ceil (fs * (1 / 5)) + \<bar>so\<bar>) * 2)
     \<and> svgWidth (generateTitleSvg title fs so width ml) = width"
proof (cases "title_lines title fs width")
  case (Pair l1 l2)
  show ?thesis
  proof (cases "ml \<noteq> 1 \<and> l2 \<noteq> []")
    case True
    with Pair show ?thesis
      by (intro exI [of _ 2]) (simp add: generateTitleSvg_def Let_def)
  next
    case False
    with Pair show ?thesis
      by (intro exI [of _ 1]) (auto simp: generateTitleSvg_def Let_def)
  qed
qed

lemma svgHeight_bounds:
  assumes fs: "0 < fs" and so: "2 * \<bar>so\<bar> \<le> of_int h" and ml: "ml = (if single then 1 else 2)"
  shows "0 < svgHeight (generateTitleSvg title fs so width ml)"
    and "svgHeight (generateTitleSvg title fs so width ml) + tsp \<le> canvas_titleHeight fs tsp single + of_int h"
    and "is_integer (svgHeight (generateTitleSvg title fs so width ml))"
proof -
  define c :: rat where "c = Math_ceil (fs * (1 / 5))"
  obtain r :: rat where r: "r = 1 \<or> r = 2 \<and> ml \<noteq> 1"
    and sh: "svgHeight (generateTitleSvg title fs so width ml) = Math_ceil (fs * (6 / 5) * r + (c + \<bar>so\<bar>) * 2)"
    using svgHeight_cases [of ml title fs so width] unfolding c_def by blast
  define lines :: rat where "lines = (if single then 1 else 2)"
  have rl: "r \<le> lines" "0 < r" using r ml by (auto simp: lines_def)
  have c0: "0 \<le> c" using fs by (simp add: c_def Math_ceil_def)
  have "0 < fs * (6 / 5) * r" using fs rl(2) by simp
  then have pos: "0 < fs * (6 / 5) * r + (c + \<bar>so\<bar>) * 2" using c0 by (simp add: add_pos_nonneg)
  then have "0 < \<lceil>fs * (6 / 5) * r + (c + \<bar>so\<bar>) * 2\<rceil>" by (simp only: zero_less_ceiling)
  then show "0 < svgHeight (generateTitleSvg title fs so width ml)"
    unfolding sh by (simp add: Math_ceil_def)
  show "is_integer (svgHeight (generateTitleSvg title fs so width ml))"
    unfolding sh by (simp add: Math_ceil_def)
  have "fs * (6 / 5) * r \<le> fs * (6 / 5) * lines"
    using fs rl(1) by (intro mult_left_mono) auto
  then have "fs * (6 / 5) * r + (c + \<bar>so\<bar>) * 2 \<le> (fs * (6 / 5) * lines + (c + 1) * 2) + of_int h"
    using so by simp
  then have "\<lceil>fs * (6 / 5) * r + (c + \<bar>so\<bar>) * 2\<rceil> \<le> \<lceil>(fs * (6 / 5) * lines + (c + 1) * 2) + of_int h\<rceil>"
    by (rule ceiling_mono)
  also have "\<dots> = \<lceil>fs * (6 / 5) * lines + (c + 1) * 2\<rceil> + h"
    by (rule ceiling_add_of_int)
  finally have "Math_ceil (fs * (6 / 5) * r + (c + \<bar>so\<bar>) * 2)
      \<le> Math_ceil (fs * (6 / 5) * lines + (c + 1) * 2) + of_int h"
    unfolding Math_ceil_def by (metis of_int_add of_int_le_iff)
  then show "svgHeight (generateTitleSvg title fs so width ml) + tsp \<le> canvas_titleHeight fs tsp single + of_int h"
    unfolding sh by (simp add: canvas_titleHeight_def Let_def lines_def c_def)
qed

lemma canvas_titleHeight_integer:
  "is_integer tsp \<Longrightarrow> is_integer (canvas_titleHeight fs tsp single)"
  by (simp add: canvas_titleHeight_def Let_def Math_ceil_def is_integer_iff)

lemma layout_titleHeight_integer:
  assumes "is_integer (fs / 5)" "is_integer tsp"
  shows "is_integer (layout_titleHeight fs tsp single)"
proof -
  from assms(1) obtain k :: int where "fs / 5 = of_int k"
    by (auto simp: is_integer_iff elim: Ints_cases)
  then have fs: "fs = 5 * of_int k" by simp
  have "fs * (6 / 5 * (if single then 1 else 2)) = of_int (k * (if single then 6 else 12))"
    unfolding fs by simp
  then have "fs * (6 / 5 * (if single then 1 else 2)) \<in> \<int>"
    by (simp only: Ints_of_int)
  then show ?thesis
    using assms(2) unfolding layout_titleHeight_def Let_def is_integer_iff
    by (intro Ints_add) auto
qed

lemma canvas_titleHeight_nonneg:
  assumes "0 < fs" "0 \<le> tsp"
  shows "0 \<le> canvas_titleHeight fs tsp single"
proof -
  have "0 \<le> fs * (6 / 5) * (if single then 1 else 2) + (Math_ceil (fs * (1 / 5)) + 1) * 2"
    using assms(1) by (simp add: Math_ceil_def add_nonneg_nonneg)
  then have "- 1 < fs * (6 / 5) * (if single then 1 else 2) + (Math_ceil (fs * (1 / 5)) + 1) * 2"
    by linarith
  then have "0 \<le> \<lceil>fs * (6 / 5) * (if single then 1 else 2) + (Math_ceil (fs * (1 / 5)) + 1) * 2\<rceil>"
    by (simp only: zero_le_ceiling)
  then show ?thesis
    using assms(2) by (simp add: canvas_titleHeight_def Let_def Math_ceil_def)
qed

lemma canvas_same:
  assumes "imgs \<noteq> []" "\<forall>img\<in>set imgs. same_size_image w h img" "0 < w" "0 < h"
  shows "calculateCanvasDimensions imgs sp bw bh fs tsp cq single
    = Inr \<lparr> canvasWidth = max (of_int bw) (of_int w * of_nat (length imgs) + sp * (of_nat (length imgs) + 1)),
            canvasHeight = max (of_int bh) (of_int h + canvas_titleHeight fs tsp single + sp * 2),
            imageWidth = of_int w, imageHeight = of_int h,
            quarterWidth = Math_floor (max (of_int bw) (of_int w * of_nat (length imgs)
                                         + sp * (of_nat (length imgs) + 1)) / of_nat (length imgs)) \<rparr>"
proof -
  from assms(1) obtain first others where imgs: "imgs = first # others" by (cases imgs) auto
  with assms(2) have "originalWidth first = w" "originalHeight first = h"
    by (simp_all add: same_size_image_def)
  with assms(3,4) show ?thesis
    unfolding imgs by (simp add: calculateCanvasDimensions_def Let_def)
qed

lemma title_overlay_ok:
  assumes w: "0 < w" and h: "0 < h"
    and sp: "is_integer sp" "0 \<le> sp" and tsp: "0 \<le> tsp"
    and fs: "0 < fs" and so: "2 * \<bar>so\<bar> \<le> of_int h"
    and ml: "ml = (if single then 1 else 2)"
    and bw: "of_int w \<le> fst base"
    and bh: "of_int h + canvas_titleHeight fs tsp single \<le> snd base"
  shows "overlay_ok base
     \<lparr> overlay_input = TitleLayer (generateTitleSvg title fs so (of_int w) ml),
       overlay_top = sp + max 0 (Math_round x),
       overlay_left = (if cq then Math_round y else of_nat i * (of_int w + sp) + sp) \<rparr>"
proof -
  let ?svg = "generateTitleSvg title fs so (of_int w) ml"
  have sw: "svgWidth ?svg = of_int w"
    using svgHeight_cases [of ml title fs so "of_int w"] by blast
  have sh: "0 < svgHeight ?svg" "svgHeight ?svg + tsp \<le> canvas_titleHeight fs tsp single + of_int h"
    using svgHeight_bounds [OF fs so ml] by blast+
  from sh(2) tsp bh have fit: "svgHeight ?svg \<le> snd base" by linarith
  have top: "sp + max 0 (Math_round x) \<in> \<int>"
    using sp(1) by (auto simp: is_integer_iff max_def Math_round_def)
  have left: "(if cq then Math_round y else of_nat i * (of_int w + sp) + sp) \<in> \<int>"
    using sp(1) by (auto simp: is_integer_iff Math_round_def)
  show ?thesis
    using top left sw sh(1) fit w bw
    by (simp add: overlay_ok_def composite_ok_def is_integer_iff)
qed

lemma title_operations_ok:
  assumes w: "0 < w" and h: "0 < h"
    and sp: "is_integer (spacing st)" "0 \<le> spacing st" and tsp: "0 \<le> titleSpacing st"
    and fs: "0 < titleFontSize st" and so: "2 * \<bar>titleShadowOffset st\<bar> \<le> of_int h"
    and iw: "imageWidth dims = of_int w"
    and bw: "of_int w \<le> fst base"
    and bh: "of_int h + canvas_titleHeight (titleFontSize st) (titleSpacing st) (deviceType st = Ipad) \<le> snd base"
    and ts: "list_all renderable ts"
  shows "\<exists>ops. title_operations st dims ts idxs = Inr ops \<and> length ops = length idxs
         \<and> list_all (overlay_ok base) ops
         \<and> filter is_image_layer ops = []
         \<and> concat (map (layer_slot \<circ> overlay_input) ops) = []"
proof (induction idxs)
  case Nil
  then show ?case by simp
next
  case (Cons i idxs)
  then obtain ops where ops: "title_operations st dims ts idxs = Inr ops" "length ops = length idxs"
    "list_all (overlay_ok base) ops" "filter is_image_layer ops = []"
    "concat (map (layer_slot \<circ> overlay_input) ops) = []" by auto
  obtain s where s: "title_text ts i = Inr s"
    using title_text_renderable [OF ts] by blast
  define titleHeight where
    "titleHeight = layout_titleHeight (titleFontSize st) (titleSpacing st) (deviceType st = Ipad)"
  define svg where
    "svg = generateTitleSvg s (titleFontSize st) (titleShadowOffset st) (imageWidth dims)
             (if deviceType st = Ipad then 1 else 2)"
  define titleOp where
    "titleOp = \<lparr> overlay_input = TitleLayer svg,
        overlay_top = spacing st + max 0 (Math_round ((titleHeight - svgHeight svg) / 2)),
        overlay_left =
          (if centerInQuarters st
           then Math_round (((of_nat i * quarterWidth dims) + (quarterWidth dims / 2))
                            - (imageWidth dims / 2))
           else of_nat i * (imageWidth dims + spacing st) + spacing st) \<rparr>"
  have step: "title_operations st dims ts (i # idxs) = Inr (titleOp # ops)"
    using s ops(1) by (simp add: Let_def titleOp_def svg_def titleHeight_def)
  have ok: "overlay_ok base titleOp"
    unfolding titleOp_def svg_def iw
    by (rule title_overlay_ok [OF w h sp tsp fs so refl bw bh])
  have kind: "\<not> is_image_layer titleOp" "layer_slot (overlay_input titleOp) = []"
    by (simp_all add: titleOp_def is_image_layer_def)
  show ?case
    using step ops(2-5) ok kind by simp
qed

lemma image_operation_ok:
  assumes sp: "is_integer (spacing st)" and tsp: "is_integer (titleSpacing st)"
    and fs: "is_integer (titleFontSize st / 5)"
    and img: "same_size_image w h (snd p)"
    and bw: "of_int w \<le> fst base" and bh: "of_int h \<le> snd base"
  shows "overlay_ok base (image_operation st dims i p)"
    and "is_image_layer (image_operation st dims i p)"
    and "layer_slot (overlay_input (image_operation st dims i p)) = [fst p]"
proof -
  have top: "spacing st + layout_titleHeight (titleFontSize st) (titleSpacing st) (deviceType st = Ipad) \<in> \<int>"
    using sp layout_titleHeight_integer [OF fs tsp] by (simp add: is_integer_iff)
  from img bw bh have size: "0 < scaledWidth (snd p)" "scaledWidth (snd p) \<le> fst base"
    "0 < scaledHeight (snd p)" "scaledHeight (snd p) \<le> snd base"
    by (auto simp: same_size_image_def)
  show "overlay_ok base (image_operation st dims i p)"
    using top size
    by (simp add: overlay_ok_def composite_ok_def image_operation_def Let_def is_integer_iff Math_round_def)
  show "is_image_layer (image_operation st dims i p)"
    by (simp add: image_operation_def Let_def is_image_layer_def)
  show "layer_slot (overlay_input (image_operation st dims i p)) = [fst p]"
    by (simp add: image_operation_def Let_def)
qed

lemma image_operations_ok:
  assumes sp: "is_integer (spacing st)" and tsp: "is_integer (titleSpacing st)"
    and fs: "is_integer (titleFontSize st / 5)"
    and imgs: "\<forall>img\<in>set (map snd ps). same_size_image w h img"
    and bw: "of_int w \<le> fst base" and bh: "of_int h \<le> snd base"
  shows "list_all (overlay_ok base) (map (\<lambda>(index, img). image_operation st dims index img) (zip idxs ps))
    \<and> filter (\<lambda>ov. \<not> is_image_layer ov) (map (\<lambda>(index, img). image_operation st dims index img) (zip idxs ps)) = []
    \<and> (length idxs = length ps \<longrightarrow>
         concat (map (layer_slot \<circ> overlay_input)
           (map (\<lambda>(index, img). image_operation st dims index img) (zip idxs ps))) = map fst ps)"
  using imgs
proof (induction ps arbitrary: idxs)
  case Nil
  then show ?case by simp
next
  case (Cons p ps)
  show ?case
  proof (cases idxs)
    case Nil
    then show ?thesis by simp
  next
    case (Cons i rest)
    from Cons.prems have "same_size_image w h (snd p)" by simp
    from image_operation_ok [OF sp tsp fs this bw bh, of dims i]
    have "overlay_ok base (image_operation st dims i p)" "is_image_layer (image_operation st dims i p)"
      "layer_slot (overlay_input (image_operation st dims i p)) = [fst p]" by blast+
    moreover from Cons.prems have "\<forall>img\<in>set (map snd ps). same_size_image w h img" by simp
    note Cons.IH [OF this, of rest]
    ultimately show ?thesis using Cons by simp
  qed
qed

lemma explicit_titles_renderable: "list_all renderable (final_titles (Some ts) file)"
  by (simp add: final_titles_def list_all_iff)

text \<open>
  Claim C1, amended.  With a readable background, \<open>combineScreenshots\<close> fails with the
  error "No framed screenshots found", and writes nothing, when no framed screenshot is
  found.  When at least one is found (fewer or more than four included), it writes a
  composite in which exactly the found images take part, in the order in which they were
  found, each with one title layer, provided that the composite can be laid out on whole
  pixels: the framed images have the same size, spacing and title spacing are
  non-negative integers, the font size is a positive multiple of 5, twice the shadow
  offset is at most the image height, the scale factor lies between one half and one, and
  every title can be rendered.
\<close>

theorem combine_needs_one_image:
  "(0 < bw \<and> 0 < bh \<and> findFramedScreenshots listing = [] \<longrightarrow>
      combineScreenshots st titles file (Some (bw, bh)) listing = Inl NoFramedScreenshots)
   \<and> (0 < bw \<and> 0 < bh \<and> findFramedScreenshots listing \<noteq> []
       \<and> (\<forall>e\<in>set (findFramedScreenshots listing). entry_framed e = Some (w, h))
       \<and> 0 < w \<and> 0 < h
       \<and> is_integer (spacing st) \<and> 0 \<le> spacing st
       \<and> is_integer (titleSpacing st) \<and> 0 \<le> titleSpacing st
       \<and> is_integer (titleFontSize st / 5) \<and> 0 < titleFontSize st
       \<and> 2 * \<bar>titleShadowOffset st\<bar> \<le> of_int h
       \<and> 1 / 2 \<le> scale_factor st \<and> scale_factor st \<le> 1
       \<and> list_all renderable (final_titles titles file) \<longrightarrow>
        (\<exists>c. combineScreenshots st titles file (Some (bw, bh)) listing = Inr c
           \<and> image_slots c = map entry_name (findFramedScreenshots listing)
           \<and> title_count c = length (findFramedScreenshots listing)
           \<and> length (operations c) = 2 * length (findFramedScreenshots listing)))"
proof (intro conjI impI)
  assume "0 < bw \<and> 0 < bh \<and> findFramedScreenshots listing = []"
  then show "combineScreenshots st titles file (Some (bw, bh)) listing = Inl NoFramedScreenshots"
    by (simp add: combineScreenshots_def Let_def)
next
  let ?found = "findFramedScreenshots listing"
  let ?sf = "scale_factor st"
  let ?single = "deviceType st = Ipad"
  assume a: "0 < bw \<and> 0 < bh \<and> ?found \<noteq> []
       \<and> (\<forall>e\<in>set ?found. entry_framed e = Some (w, h))
       \<and> 0 < w \<and> 0 < h
       \<and> is_integer (spacing st) \<and> 0 \<le> spacing st
       \<and> is_integer (titleSpacing st) \<and> 0 \<le> titleSpacing st
       \<and> is_integer (titleFontSize st / 5) \<and> 0 < titleFontSize st
       \<and> 2 * \<bar>titleShadowOffset st\<bar> \<le> of_int h
       \<and> 1 / 2 \<le> ?sf \<and> ?sf \<le> 1
       \<and> list_all renderable (final_titles titles file)"
  then have bg: "0 < bw" "0 < bh" and ne: "?found \<noteq> []"
    and same: "\<forall>e\<in>set ?found. entry_framed e = Some (w, h)"
    and w: "0 < w" and h: "0 < h"
    and sp: "is_integer (spacing st)" "0 \<le> spacing st"
    and tsp: "is_integer (titleSpacing st)" "0 \<le> titleSpacing st"
    and fs: "is_integer (titleFontSize st / 5)" "0 < titleFontSize st"
    and so: "2 * \<bar>titleShadowOffset st\<bar> \<le> of_int h"
    and sf: "1 / 2 \<le> ?sf" "?sf \<le> 1"
    and ts: "list_all renderable (final_titles titles file)"
    by blast+
  obtain imgs where imgs: "load_all ?sf ?found = Inr imgs" "map fst imgs = map entry_name ?found"
    "\<forall>img\<in>set (map snd imgs). same_size_image w h img"
    using load_all_same [OF same w h sf] by blast
  from imgs(2) have len: "length imgs = length ?found" by (metis length_map)
  with ne have ine: "map snd imgs \<noteq> []" by auto
  define n :: rat where "n = of_nat (length imgs)"
  have n1: "1 \<le> n" using ine by (cases imgs) (auto simp: n_def)
  define cw where "cw = max (of_int bw) (of_int w * n + spacing st * (n + 1))"
  define cth where "cth = canvas_titleHeight (titleFontSize st) (titleSpacing st) ?single"
  define ch where "ch = max (of_int bh) (of_int h + cth + spacing st * 2)"
  define dims where "dims = \<lparr> canvasWidth = cw, canvasHeight = ch, imageWidth = of_int w,
     imageHeight = of_int h, quarterWidth = Math_floor (cw / n) \<rparr>"
  have dims: "calculateCanvasDimensions (map snd imgs) (spacing st) bw bh (titleFontSize st)
      (titleSpacing st) (centerInQuarters st) ?single = Inr dims"
    using canvas_same [OF ine imgs(3) w h, of "spacing st" bw bh "titleFontSize st" "titleSpacing st"
        "centerInQuarters st" ?single]
    by (simp add: dims_def cw_def ch_def cth_def n_def)
  have cth0: "0 \<le> cth"
    unfolding cth_def by (rule canvas_titleHeight_nonneg [OF fs(2) tsp(2)])
  have "of_int w * 1 \<le> of_int w * n" using w n1 by (intro mult_left_mono) auto
  moreover have "0 \<le> spacing st * (n + 1)" using sp(2) n1 by simp
  ultimately have "of_int w \<le> of_int w * n + spacing st * (n + 1)" by simp
  then have cw_ge: "of_int w \<le> cw" by (simp add: cw_def)
  have ch_ge: "of_int h + cth \<le> ch" using sp(2) by (simp add: ch_def)
  then have ch_ge': "of_int h \<le> ch" using cth0 by simp
  have cw_int: "is_integer cw"
    using sp(1) by (auto simp: cw_def n_def is_integer_iff max_def)
  have "is_integer cth"
    unfolding cth_def by (rule canvas_titleHeight_integer [OF tsp(1)])
  then have ch_int: "is_integer ch"
    using sp(1) by (auto simp: ch_def is_integer_iff max_def)
  have cw_pos: "0 < cw" "0 < ch" using bg by (simp_all add: cw_def ch_def)
  have rs: "resize_ok cw ch" using cw_int ch_int cw_pos by (simp add: resize_ok_def)
  obtain tops where tops: "title_operations st dims (final_titles titles file) [0 ..< length imgs] = Inr tops"
    "length tops = length imgs" "list_all (overlay_ok (cw, ch)) tops"
    "filter is_image_layer tops = []" "concat (map (layer_slot \<circ> overlay_input) tops) = []"
    using title_operations_ok [OF w h sp tsp(2) fs(2) so _ _ _ ts, of dims "(cw, ch)" "[0 ..< length imgs]"]
      cw_ge ch_ge
    by (auto simp: dims_def cth_def)
  let ?iops = "map (\<lambda>(index, img). image_operation st dims index img) (zip [0 ..< length imgs] imgs)"
  have iops: "list_all (overlay_ok (cw, ch)) ?iops"
    "filter (\<lambda>ov. \<not> is_image_layer ov) ?iops = []"
    "concat (map (layer_slot \<circ> overlay_input) ?iops) = map fst imgs"
    using image_operations_ok [OF sp(1) tsp(1) fs(1) imgs(3), of "(cw, ch)" dims "[0 ..< length imgs]"]
      cw_ge ch_ge'
    by auto
  let ?c = "\<lparr> base_width = cw, base_height = ch, operations = tops @ ?iops \<rparr>"
  have all_ok: "list_all (overlay_ok (cw, ch)) (tops @ ?iops)"
    using tops(3) iops(1) by simp
  have run: "combineScreenshots st titles file (Some (bw, bh)) listing = Inr ?c"
  proof (cases "cw > of_int bw \<or> ch > of_int bh")
    case True
    with bg ne imgs(1) dims tops(1) rs all_ok show ?thesis
      by (simp add: combineScreenshots_def Let_def dims_def)
  next
    case False
    then have "of_int bw = cw" "of_int bh = ch"
      by (auto simp: cw_def ch_def max_def)
    with False bg ne imgs(1) dims tops(1) all_ok show ?thesis
      by (simp add: combineScreenshots_def Let_def dims_def)
  qed
  have slots: "image_slots ?c = map entry_name ?found"
    using tops(5) iops(3) imgs(2) by (simp add: image_slots_def)
  have "filter (\<lambda>ov. \<not> is_image_layer ov) tops = tops"
    using tops(4) by (induction tops) (auto split: if_splits)
  then have count: "title_count ?c = length ?found"
    using iops(2) tops(2) len by (simp add: title_count_def)
  have total: "length (operations ?c) = 2 * length ?found"
    using tops(2) len by simp
  show "\<exists>c. combineScreenshots st titles file (Some (bw, bh)) listing = Inr c
           \<and> image_slots c = map entry_name ?found
           \<and> title_count c = length ?found
           \<and> length (operations c) = 2 * length ?found"
    using run slots count total by blast
qed

theorem combine_one_image_counterexample:
  "length (findFramedScreenshots (Some [slot_dir ''slot_1''])) = 1
   \<and> combineScreenshots defaultSettings None FileMissing (Some (2580, 1398)) (Some [slot_dir ''slot_1''])
     = Inr \<lparr> base_width = 2580, base_height = 3158,
             operations =
               [ \<lparr> overlay_input = TitleLayer
                     \<lparr> line1 = ''Screenshot 1'', line2 = [], svgWidth = 1230, svgHeight = 210,
                       textX = 615, textY1 = 105, textY2 = 261 \<rparr>,
                   overlay_top = 151, overlay_left = 675 \<rparr>,
                 \<lparr> overlay_input = ImageLayer ''slot_1''
                     \<lparr> originalWidth = 1230, originalHeight = 2592,
                       scaledWidth = 1107, scaledHeight = 2333 \<rparr>,
                   overlay_top = 462, overlay_left = 737 \<rparr> ] \<rparr>"
  by code_simp

theorem combine_needs_one_image_witness:
  "combineScreenshots defaultSettings (Some [''Login'', ''Home'']) FileMissing (Some (2580, 1398)) (Some [])
     = Inl NoFramedScreenshots
   \<and> (\<exists>c. combineScreenshots defaultSettings (Some [''Login'', ''Home'']) FileMissing (Some (2580, 1398))
             (Some [slot_dir ''slot_2'', slot_dir ''slot_1'']) = Inr c
          \<and> image_slots c = [''slot_1'', ''slot_2'']
          \<and> title_count c = 2
          \<and> length (operations c) = 4)"
proof -
  have empty: "findFramedScreenshots (Some []) = []"
    by code_simp
  have two: "map entry_name (findFramedScreenshots (Some [slot_dir ''slot_2'', slot_dir ''slot_1'']))
      = [''slot_1'', ''slot_2'']"
    by code_simp
  then have ne: "findFramedScreenshots (Some [slot_dir ''slot_2'', slot_dir ''slot_1'']) \<noteq> []"
    by auto
  have "list_all (\<lambda>e. entry_framed e = Some (1230, 2592))
      (findFramedScreenshots (Some [slot_dir ''slot_2'', slot_dir ''slot_1'']))"
    by code_simp
  then have same: "\<forall>e\<in>set (findFramedScreenshots (Some [slot_dir ''slot_2'', slot_dir ''slot_1''])).
      entry_framed e = Some (1230, 2592)"
    by (simp add: list_all_iff)
  have layout: "is_integer (spacing defaultSettings) \<and> 0 \<le> spacing defaultSettings
       \<and> is_integer (titleSpacing defaultSettings) \<and> 0 \<le> titleSpacing defaultSettings
       \<and> is_integer (titleFontSize defaultSettings / 5) \<and> 0 < titleFontSize defaultSettings
       \<and> 2 * \<bar>titleShadowOffset defaultSettings\<bar> \<le> of_int 2592
       \<and> 1 / 2 \<le> scale_factor defaultSettings \<and> scale_factor defaultSettings \<le> 1"
    by (simp add: defaultSettings_def scale_factor_def is_integer_def)
  have titles: "list_all renderable (final_titles (Some [''Login'', ''Home'']) FileMissing)"
    by (rule explicit_titles_renderable)
  have len: "length (findFramedScreenshots (Some [slot_dir ''slot_2'', slot_dir ''slot_1''])) = 2"
    using two by (metis length_map length_Cons list.size(3) numeral_2_eq_2)
  show ?thesis
    using combine_needs_one_image [of 2580 1398 "Some []" defaultSettings "Some [''Login'', ''Home'']"
        FileMissing 1230 2592]
      combine_needs_one_image [of 2580 1398 "Some [slot_dir ''slot_2'', slot_dir ''slot_1'']" defaultSettings
        "Some [''Login'', ''Home'']" FileMissing 1230 2592]
      empty two ne same layout titles len
    by simp
qed

text \<open>
  Without whole-pixel offsets nothing is written: with a font size of 28 the images would
  be placed at \<open>50 + 28 * 2.4 + 100 = 217.2\<close>, which the composite rejects.
\<close>

lemma combine_fractional_offset_fails:
  "combineScreenshots (defaultSettings\<lparr>titleFontSize := 28\<rparr>) None FileMissing (Some (2580, 1398))
     (Some [slot_dir ''slot_1'', slot_dir ''slot_2'', slot_dir ''slot_3'', slot_dir ''slot_4''])
   = Inl CompositeError"
  by code_simp

end
